theory Spec2Isabelle
  imports Main "HOL-Library.Word"
begin

section \<open>Common ground of the two contracts\<close>

text \<open>
  The two Solidity contracts \<^verbatim>\<open>ParkingOracle\<close> and \<^verbatim>\<open>ParkingSystem\<close> are embedded as
  functions on records of their storage. A transaction either succeeds, returning the new
  storage and what it emitted, or reverts: a revert is \<open>Inl\<close> of the reason, and the storage
  the caller keeps is the old one.

  \<^item> \<^verbatim>\<open>uint256\<close> is \<open>nat\<close>; the compiler (pragma 0.8.20) checks every \<^verbatim>\<open>+\<close>, \<^verbatim>\<open>-\<close>,
    \<^verbatim>\<open>*\<close> and \<^verbatim>\<open>++\<close>, so each one that can leave \<open>[0, MAX_UINT256]\<close> is written
    with its range test (\<open>overflow\<close>, \<open>underflow\<close>) and reverts with \<open>Panic\<close>.
  \<^item> \<^verbatim>\<open>address\<close> is a 160-bit word, \<^verbatim>\<open>bytes32\<close> a 256-bit word; only equality is used.
  \<^item> a \<^verbatim>\<open>mapping\<close> is a total function: a key never written holds the all-zero value.
  \<^item> \<^verbatim>\<open>msg.sender\<close> and \<^verbatim>\<open>block.timestamp\<close> come with every call in a \<open>call_env\<close>,
    and so does the rest of the chain as far as a call depends on it: \<open>accepts_ether a n\<close>
    tells whether the account \<open>a\<close> takes a plain payment of \<open>n\<close> wei made with
    \<^verbatim>\<open>transfer\<close>. An externally owned account always does; a contract does when it has a
    payable \<^verbatim>\<open>receive\<close> or \<^verbatim>\<open>fallback\<close> that returns within the 2300 gas that
    \<^verbatim>\<open>transfer\<close> forwards. With that little gas the recipient cannot write storage or
    call back, so a payment has no other effect on the contract that makes it.
\<close>

type_synonym address = "160 word"
type_synonym bytes32 = "256 word"

definition MAX_UINT256 :: nat where
  "MAX_UINT256 = 2 ^ 256 - 1"

text \<open>
  The two tests the compiler puts around arithmetic: the result of \<^verbatim>\<open>+\<close>, \<^verbatim>\<open>*\<close> or
  \<^verbatim>\<open>++\<close> does not fit, and \<^verbatim>\<open>a - b\<close> with \<open>a < b\<close>.
\<close>

definition overflow :: "nat \<Rightarrow> bool" where
  "overflow n = (n > MAX_UINT256)"

definition underflow :: "nat \<Rightarrow> nat \<Rightarrow> bool" where
  "underflow a b = (a < b)"

record call_env =
  msg_sender :: address
  block_timestamp :: nat
  accepts_ether :: "address \<Rightarrow> nat \<Rightarrow> bool"

text \<open>
  One constructor per \<^verbatim>\<open>require\<close> message of the two contracts, the custom errors of
  the inherited \<^verbatim>\<open>Ownable\<close> and \<^verbatim>\<open>Pausable\<close>, the arithmetic panic and a failed
  \<^verbatim>\<open>transfer\<close>. The messages, accents dropped, in the order of the constructors:

  \<^item> \<^verbatim>\<open>ParkingOracle\<close>: "Oracle non autorise", "ID de place invalide", "Cooldown non ecoule",
    "Confiance insuffisante", "Donnees deja traitees", "Type de capteur requis",
    "Adresse invalide", "Oracle deja actif", "Oracle non actif", "Reputation maximale 1000",
    "Oracle inexistant";
  \<^item> \<^verbatim>\<open>ParkingSystem\<close>: "Seul l'oracle peut appeler cette fonction",
    "Place de parking inexistante", "Reservation inexistante",
    "Le tarif doit etre superieur a 0", "Place de parking inactive", "Place deja occupee",
    "Heure de debut invalide", "Heure de fin invalide", "Duree minimale non respectee",
    "Duree maximale depassee", "Place deja reservee pour cette periode",
    "Paiement insuffisant", "Reservation non active", "Reservation deja commencee",
    "Reservation non commencee", "Reservation deja terminee", "Pas autorise",
    "Impossible d'annuler apres le debut", "Trop tard pour annuler", "Frais maximum 20%",
    "Adresse oracle invalide".
\<close>

datatype error =
    OwnableUnauthorizedAccount
  | OwnableInvalidOwner
  | EnforcedPause
  | ExpectedPause
  | Panic
  | TransferFailed
  | OracleNotAuthorized
  | InvalidSpotId
  | CooldownNotElapsed
  | InsufficientConfidence
  | DataAlreadyProcessed
  | SensorTypeRequired
  | InvalidAddress
  | OracleAlreadyActive
  | OracleNotActive
  | ReputationTooHigh
  | OracleUnknown
  | OnlyOracle
  | SpotNotFound
  | ReservationNotFound
  | RateMustBePositive
  | SpotInactive
  | SpotOccupied
  | InvalidStartTime
  | InvalidEndTime
  | MinDurationNotMet
  | MaxDurationExceeded
  | SpotAlreadyReserved
  | InsufficientPayment
  | ReservationNotActive
  | ReservationAlreadyStarted
  | ReservationNotStarted
  | ReservationAlreadyCompleted
  | NotAuthorized
  | CannotCancelAfterStart
  | TooLateToCancel
  | FeeTooHigh
  | InvalidOracleAddress

section \<open>ParkingOracle\<close>

subsection \<open>Storage\<close>

record SensorData =
  data_spotId :: nat
  data_isOccupied :: bool
  data_confidence :: nat
  data_timestamp :: nat
  data_sensorType :: string
  data_dataHash :: bytes32

record OracleNode =
  node_nodeAddress :: address
  node_isActive :: bool
  node_reputation :: nat
  node_totalUpdates :: nat
  node_lastUpdate :: nat
  node_nodeId :: string

definition zero_SensorData :: SensorData where
  "zero_SensorData = \<lparr>data_spotId = 0, data_isOccupied = False, data_confidence = 0,
     data_timestamp = 0, data_sensorType = [], data_dataHash = 0\<rparr>"

definition zero_OracleNode :: OracleNode where
  "zero_OracleNode = \<lparr>node_nodeAddress = 0, node_isActive = False, node_reputation = 0,
     node_totalUpdates = 0, node_lastUpdate = 0, node_nodeId = []\<rparr>"

record oracle_state =
  oracleNodes :: "address \<Rightarrow> OracleNode"
  latestSensorData :: "nat \<Rightarrow> SensorData"
  sensorHistory :: "nat \<Rightarrow> SensorData list"
  processedDataHashes :: "bytes32 \<Rightarrow> bool"
  activeOracles :: "address list"
  parkingSystemContract :: address
  orc_owner :: address
  orc_paused :: bool

definition MIN_CONFIDENCE :: nat where
  "MIN_CONFIDENCE = 70"

definition MAX_HISTORY_SIZE :: nat where
  "MAX_HISTORY_SIZE = 100"

definition UPDATE_COOLDOWN :: nat where
  "UPDATE_COOLDOWN = 30"

datatype oracle_event =
    OracleNodeAdded address string
  | OracleNodeRemoved address
  | OracleNodeUpdated address bool nat
  | SensorDataUpdated nat bool nat address string
  | ParkingSystemUpdated address
  | DataValidationFailed address nat string
  | OrcOwnershipTransferred address address
  | OrcPaused address
  | OrcUnpaused address

type_synonym oracle_result = "error + oracle_state \<times> oracle_event list"

text \<open>The constructor: \<^verbatim>\<open>Ownable(msg.sender)\<close>, every mapping and the array empty.\<close>

definition oracle_constructor :: "call_env \<Rightarrow> address \<Rightarrow> oracle_state" where
  "oracle_constructor e a =
     \<lparr>oracleNodes = (\<lambda>_. zero_OracleNode),
      latestSensorData = (\<lambda>_. zero_SensorData),
      sensorHistory = (\<lambda>_. []),
      processedDataHashes = (\<lambda>_. False),
      activeOracles = [],
      parkingSystemContract = a,
      orc_owner = msg_sender e,
      orc_paused = False\<rparr>"

subsection \<open>Reputation\<close>

text \<open>\<^verbatim>\<open>_rewardOracle\<close>: one point more, unless the score is already 1000.\<close>

definition rewardOracle :: "oracle_state \<Rightarrow> address \<Rightarrow> oracle_state" where
  "rewardOracle s a =
     (let oracle = oracleNodes s a in
      if node_reputation oracle < 1000
      then s\<lparr>oracleNodes := (oracleNodes s)(a := oracle\<lparr>node_reputation := node_reputation oracle + 1\<rparr>)\<rparr>
      else s)"

text \<open>
  \<^verbatim>\<open>_penalizeOracle\<close>: ten points less when the score is above 10, then the node is
  switched off (and \<^verbatim>\<open>OracleNodeUpdated\<close> emitted) when the score is below 100.
\<close>

definition penalizeOracle :: "oracle_state \<Rightarrow> address \<Rightarrow> oracle_state \<times> oracle_event list" where
  "penalizeOracle s a =
     (let oracle = oracleNodes s a;
          oracle1 = (if node_reputation oracle > 10
                     then oracle\<lparr>node_reputation := node_reputation oracle - 10\<rparr>
                     else oracle)
      in if node_reputation oracle1 < 100
         then (s\<lparr>oracleNodes := (oracleNodes s)(a := oracle1\<lparr>node_isActive := False\<rparr>)\<rparr>,
               [OracleNodeUpdated a False (node_reputation oracle1)])
         else (s\<lparr>oracleNodes := (oracleNodes s)(a := oracle1)\<rparr>, []))"

text \<open>\<^verbatim>\<open>updateOracleReputation\<close>, the owner's override.\<close>

definition updateOracleReputation :: "oracle_state \<Rightarrow> call_env \<Rightarrow> address \<Rightarrow> nat \<Rightarrow> oracle_result" where
  "updateOracleReputation s e a newReputation =
     (if msg_sender e \<noteq> orc_owner s then Inl OwnableUnauthorizedAccount
      else if \<not> newReputation \<le> 1000 then Inl ReputationTooHigh
      else if \<not> node_nodeAddress (oracleNodes s a) \<noteq> 0 then Inl OracleUnknown
      else Inr (s\<lparr>oracleNodes := (oracleNodes s)(a := (oracleNodes s a)\<lparr>node_reputation := newReputation\<rparr>)\<rparr>,
                [OracleNodeUpdated a (node_isActive (oracleNodes s a)) newReputation]))"

subsection \<open>Node registry\<close>

definition addOracleNode :: "oracle_state \<Rightarrow> call_env \<Rightarrow> address \<Rightarrow> string \<Rightarrow> oracle_result" where
  "addOracleNode s e a nodeId =
     (if msg_sender e \<noteq> orc_owner s then Inl OwnableUnauthorizedAccount
      else if \<not> a \<noteq> 0 then Inl InvalidAddress
      else if \<not> \<not> node_isActive (oracleNodes s a) then Inl OracleAlreadyActive
      else Inr (s\<lparr>oracleNodes := (oracleNodes s)(a :=
                     \<lparr>node_nodeAddress = a, node_isActive = True, node_reputation = 500,
                      node_totalUpdates = 0, node_lastUpdate = 0, node_nodeId = nodeId\<rparr>),
                   activeOracles := activeOracles s @ [a]\<rparr>,
                [OracleNodeAdded a nodeId]))"

text \<open>
  The loop of \<^verbatim>\<open>removeOracleNode\<close>: the first slot holding the address takes the last
  element, the array loses its last slot, and the loop stops.
\<close>

function remove_active_loop :: "nat \<Rightarrow> address list \<Rightarrow> address \<Rightarrow> address list" where
  "remove_active_loop i xs a =
     (if i < length xs
      then (if xs ! i = a then butlast (xs[i := xs ! (length xs - 1)])
            else remove_active_loop (i + 1) xs a)
      else xs)"
  by pat_completeness auto
termination
  by (relation "measure (\<lambda>(i, xs, a). length xs - i)") auto

declare remove_active_loop.simps [simp del]

definition removeOracleNode :: "oracle_state \<Rightarrow> call_env \<Rightarrow> address \<Rightarrow> oracle_result" where
  "removeOracleNode s e a =
     (if msg_sender e \<noteq> orc_owner s then Inl OwnableUnauthorizedAccount
      else if \<not> node_isActive (oracleNodes s a) then Inl OracleNotActive
      else Inr (s\<lparr>oracleNodes := (oracleNodes s)(a := (oracleNodes s a)\<lparr>node_isActive := False\<rparr>),
                   activeOracles := remove_active_loop 0 (activeOracles s) a\<rparr>,
                [OracleNodeRemoved a]))"

subsection \<open>Sensor readings\<close>

text \<open>
  \<^verbatim>\<open>_validateSensorData\<close>. The subtraction \<^verbatim>\<open>block.timestamp - lastData.timestamp\<close> is
  checked, hence the \<open>Panic\<close> branch.
\<close>

definition validateSensorData ::
  "oracle_state \<Rightarrow> call_env \<Rightarrow> nat \<Rightarrow> bool \<Rightarrow> nat \<Rightarrow> string \<Rightarrow> error + bool" where
  "validateSensorData s e spot occupied conf sensorType =
     (if conf < MIN_CONFIDENCE \<or> conf > 100 then Inr False
      else let lastData = latestSensorData s spot in
        if data_timestamp lastData > 0
        then (if data_isOccupied lastData \<noteq> occupied \<and> conf < 80 then Inr False
              else if underflow (block_timestamp e) (data_timestamp lastData) then Inl Panic
              else if block_timestamp e - data_timestamp lastData < UPDATE_COOLDOWN then Inr False
              else Inr True)
        else Inr True)"

definition shouldNotifyParkingSystem :: "oracle_state \<Rightarrow> nat \<Rightarrow> bool \<Rightarrow> bool" where
  "shouldNotifyParkingSystem s spot occupied =
     (let lastData = latestSensorData s spot in
      data_timestamp lastData = 0 \<or> data_isOccupied lastData \<noteq> occupied)"

text \<open>\<^verbatim>\<open>_notifyParkingSystem\<close>: its body is a comment, it changes nothing.\<close>

definition notifyParkingSystem :: "oracle_state \<Rightarrow> nat \<Rightarrow> bool \<Rightarrow> oracle_state" where
  "notifyParkingSystem s spot occupied = s"

text \<open>
  The history loop of \<^verbatim>\<open>updateSensorData\<close>, on the array after the \<^verbatim>\<open>push\<close>:
  \<^verbatim>\<open>for (i = 0; i < length - MAX_HISTORY_SIZE; i++) h[i] = h[i + 1];\<close>
  It is entered only when \<open>length h > MAX_HISTORY_SIZE\<close>, so \<open>i + 1\<close> is a valid index at
  every iteration and the bound does not underflow.
\<close>

function shift_history_loop :: "nat \<Rightarrow> 'a list \<Rightarrow> 'a list" where
  "shift_history_loop i h =
     (if i < length h - MAX_HISTORY_SIZE
      then shift_history_loop (i + 1) (h[i := h ! (i + 1)])
      else h)"
  by pat_completeness auto
termination
  by (relation "measure (\<lambda>(i, h). length h - MAX_HISTORY_SIZE - i)") auto

declare shift_history_loop.simps [simp del]

text \<open>\<^verbatim>\<open>push\<close>, then, above the cap, the loop and one \<^verbatim>\<open>pop\<close> (which drops the last slot).\<close>

definition append_history :: "'a list \<Rightarrow> 'a \<Rightarrow> 'a list" where
  "append_history h d =
     (let h1 = h @ [d] in
      if length h1 > MAX_HISTORY_SIZE then butlast (shift_history_loop 0 h1) else h1)"

text \<open>The reason string of \<^verbatim>\<open>DataValidationFailed\<close>, in UTF-8 (its two accents are C3 A9).\<close>

definition validation_failed_reason :: string where
  "validation_failed_reason =
     ''Validation '' @ [CHR 0xC3, CHR 0xA9] @ ''chou'' @ [CHR 0xC3, CHR 0xA9] @ ''e''"

text \<open>
  \<^verbatim>\<open>updateSensorData\<close>. The modifiers run in the order they are written
  (\<^verbatim>\<open>onlyAuthorizedOracle whenNotPaused validSpotId cooldownPassed\<close>), then the three
  \<^verbatim>\<open>require\<close>s of the body, then the validation, whose failure is not a revert: the call
  returns after emitting \<^verbatim>\<open>DataValidationFailed\<close> and penalising the sender.
\<close>

definition updateSensorData ::
  "oracle_state \<Rightarrow> call_env \<Rightarrow> nat \<Rightarrow> bool \<Rightarrow> nat \<Rightarrow> string \<Rightarrow> bytes32 \<Rightarrow> oracle_result" where
  "updateSensorData s e spot occupied conf sensorType h =
     (if \<not> node_isActive (oracleNodes s (msg_sender e)) then Inl OracleNotAuthorized
      else if orc_paused s then Inl EnforcedPause
      else if \<not> spot > 0 then Inl InvalidSpotId
      else if overflow (data_timestamp (latestSensorData s spot) + UPDATE_COOLDOWN) then Inl Panic
      else if \<not> block_timestamp e \<ge> data_timestamp (latestSensorData s spot) + UPDATE_COOLDOWN
        then Inl CooldownNotElapsed
      else if \<not> conf \<ge> MIN_CONFIDENCE then Inl InsufficientConfidence
      else if \<not> \<not> processedDataHashes s h then Inl DataAlreadyProcessed
      else if \<not> length sensorType > 0 then Inl SensorTypeRequired
      else case validateSensorData s e spot occupied conf sensorType of
        Inl err \<Rightarrow> Inl err
      | Inr False \<Rightarrow>
          (let (s1, evs) = penalizeOracle s (msg_sender e)
           in Inr (s1, DataValidationFailed (msg_sender e) spot validation_failed_reason # evs))
      | Inr True \<Rightarrow>
          (let newData = \<lparr>data_spotId = spot, data_isOccupied = occupied, data_confidence = conf,
                          data_timestamp = block_timestamp e, data_sensorType = sensorType,
                          data_dataHash = h\<rparr>;
               s1 = s\<lparr>latestSensorData := (latestSensorData s)(spot := newData),
                      processedDataHashes := (processedDataHashes s)(h := True),
                      sensorHistory := (sensorHistory s)(spot := append_history (sensorHistory s spot) newData)\<rparr>;
               oracle = oracleNodes s1 (msg_sender e)
           in if overflow (node_totalUpdates oracle + 1) then Inl Panic
              else
                let s2 = s1\<lparr>oracleNodes := (oracleNodes s1)(msg_sender e :=
                              oracle\<lparr>node_totalUpdates := node_totalUpdates oracle + 1,
                                     node_lastUpdate := block_timestamp e\<rparr>)\<rparr>;
                    s3 = rewardOracle s2 (msg_sender e);
                    s4 = (if shouldNotifyParkingSystem s3 spot occupied
                          then notifyParkingSystem s3 spot occupied else s3)
                in Inr (s4, [SensorDataUpdated spot occupied conf (msg_sender e) sensorType])))"

subsection \<open>Administration\<close>

definition updateParkingSystemContract :: "oracle_state \<Rightarrow> call_env \<Rightarrow> address \<Rightarrow> oracle_result" where
  "updateParkingSystemContract s e newContract =
     (if msg_sender e \<noteq> orc_owner s then Inl OwnableUnauthorizedAccount
      else if \<not> newContract \<noteq> 0 then Inl InvalidAddress
      else Inr (s\<lparr>parkingSystemContract := newContract\<rparr>, [ParkingSystemUpdated newContract]))"

definition orc_pause :: "oracle_state \<Rightarrow> call_env \<Rightarrow> oracle_result" where
  "orc_pause s e =
     (if msg_sender e \<noteq> orc_owner s then Inl OwnableUnauthorizedAccount
      else if orc_paused s then Inl EnforcedPause
      else Inr (s\<lparr>orc_paused := True\<rparr>, [OrcPaused (msg_sender e)]))"

definition orc_unpause :: "oracle_state \<Rightarrow> call_env \<Rightarrow> oracle_result" where
  "orc_unpause s e =
     (if msg_sender e \<noteq> orc_owner s then Inl OwnableUnauthorizedAccount
      else if \<not> orc_paused s then Inl ExpectedPause
      else Inr (s\<lparr>orc_paused := False\<rparr>, [OrcUnpaused (msg_sender e)]))"

subsection \<open>Transactions and runs\<close>

text \<open>
  \<^verbatim>\<open>transferOwnership\<close> and \<^verbatim>\<open>renounceOwnership\<close> are the two public functions the
  contract inherits from the imported \<^verbatim>\<open>Ownable\<close>.
\<close>

definition orc_transferOwnership :: "oracle_state \<Rightarrow> call_env \<Rightarrow> address \<Rightarrow> oracle_result" where
  "orc_transferOwnership s e newOwner =
     (if msg_sender e \<noteq> orc_owner s then Inl OwnableUnauthorizedAccount
      else if newOwner = 0 then Inl OwnableInvalidOwner
      else Inr (s\<lparr>orc_owner := newOwner\<rparr>, [OrcOwnershipTransferred (orc_owner s) newOwner]))"

definition orc_renounceOwnership :: "oracle_state \<Rightarrow> call_env \<Rightarrow> oracle_result" where
  "orc_renounceOwnership s e =
     (if msg_sender e \<noteq> orc_owner s then Inl OwnableUnauthorizedAccount
      else Inr (s\<lparr>orc_owner := 0\<rparr>, [OrcOwnershipTransferred (orc_owner s) 0]))"

datatype oracle_call =
    AddOracleNode address string
  | RemoveOracleNode address
  | UpdateSensorData nat bool nat string bytes32
  | UpdateParkingSystemContract address
  | UpdateOracleReputation address nat
  | OrcPause
  | OrcUnpause
  | OrcTransferOwnership address
  | OrcRenounceOwnership

fun oracle_step :: "oracle_state \<Rightarrow> call_env \<Rightarrow> oracle_call \<Rightarrow> oracle_result" where
  "oracle_step s e (AddOracleNode a nodeId) = addOracleNode s e a nodeId"
| "oracle_step s e (RemoveOracleNode a) = removeOracleNode s e a"
| "oracle_step s e (UpdateSensorData spot occupied conf sensorType h) =
     updateSensorData s e spot occupied conf sensorType h"
| "oracle_step s e (UpdateParkingSystemContract a) = updateParkingSystemContract s e a"
| "oracle_step s e (UpdateOracleReputation a r) = updateOracleReputation s e a r"
| "oracle_step s e OrcPause = orc_pause s e"
| "oracle_step s e OrcUnpause = orc_unpause s e"
| "oracle_step s e (OrcTransferOwnership a) = orc_transferOwnership s e a"
| "oracle_step s e OrcRenounceOwnership = orc_renounceOwnership s e"

text \<open>A run: the transactions in order; one that reverts leaves the storage as it was.\<close>

fun oracle_run :: "oracle_state \<Rightarrow> (call_env \<times> oracle_call) list \<Rightarrow> oracle_state" where
  "oracle_run s [] = s"
| "oracle_run s ((e, c) # cs) =
     (case oracle_step s e c of Inl err \<Rightarrow> oracle_run s cs | Inr (s1, evs) \<Rightarrow> oracle_run s1 cs)"

text \<open>
  The three operations on a reputation score, as a sequence: the two internal functions
  and the owner's call (which changes nothing when it reverts).
\<close>

datatype reputation_op =
    Reward address
  | Penalize address
  | Override call_env address nat

fun reputation_step :: "oracle_state \<Rightarrow> reputation_op \<Rightarrow> oracle_state" where
  "reputation_step s (Reward a) = rewardOracle s a"
| "reputation_step s (Penalize a) = fst (penalizeOracle s a)"
| "reputation_step s (Override e a r) =
     (case updateOracleReputation s e a r of Inl err \<Rightarrow> s | Inr (s1, evs) \<Rightarrow> s1)"

fun reputation_run :: "oracle_state \<Rightarrow> reputation_op list \<Rightarrow> oracle_state" where
  "reputation_run s [] = s"
| "reputation_run s (x # xs) = reputation_run (reputation_step s x) xs"

section \<open>ParkingSystem\<close>

subsection \<open>Storage\<close>

record ParkingSpot =
  spot_spotId :: nat
  spot_location :: string
  spot_hourlyRate :: nat
  spot_isActive :: bool
  spot_isOccupied :: bool
  spot_currentUser :: address
  spot_reservationEnd :: nat
  spot_totalEarnings :: nat
  spot_totalOccupations :: nat

datatype ReservationStatus = Active | Completed | Cancelled | Expired

record Reservation =
  res_reservationId :: nat
  res_user :: address
  res_spotId :: nat
  res_startTime :: nat
  res_endTime :: nat
  res_totalCost :: nat
  res_paidAmount :: nat
  res_status :: ReservationStatus
  res_actualStartTime :: nat
  res_actualEndTime :: nat

definition zero_ParkingSpot :: ParkingSpot where
  "zero_ParkingSpot = \<lparr>spot_spotId = 0, spot_location = [], spot_hourlyRate = 0,
     spot_isActive = False, spot_isOccupied = False, spot_currentUser = 0,
     spot_reservationEnd = 0, spot_totalEarnings = 0, spot_totalOccupations = 0\<rparr>"

text \<open>The zero value of the enum is its first member, \<open>Active\<close>.\<close>

definition zero_Reservation :: Reservation where
  "zero_Reservation = \<lparr>res_reservationId = 0, res_user = 0, res_spotId = 0, res_startTime = 0,
     res_endTime = 0, res_totalCost = 0, res_paidAmount = 0, res_status = Active,
     res_actualStartTime = 0, res_actualEndTime = 0\<rparr>"

text \<open>
  \<open>sys_balance\<close> is the ether the contract holds: \<^verbatim>\<open>msg.value\<close> of a payable call is
  added to it and a \<^verbatim>\<open>transfer\<close> takes from it.
\<close>

record parking_state =
  parkingSpots :: "nat \<Rightarrow> ParkingSpot"
  reservations :: "nat \<Rightarrow> Reservation"
  userReservations :: "address \<Rightarrow> nat list"
  spotExists :: "nat \<Rightarrow> bool"
  nextSpotId :: nat
  nextReservationId :: nat
  platformFeePercentage :: nat
  totalPlatformEarnings :: nat
  oracleAddress :: address
  sys_owner :: address
  sys_paused :: bool
  sys_balance :: nat

text \<open>
  \<^verbatim>\<open>payable(a).transfer(amount)\<close> reverts the whole call when the balance does not cover
  the amount or when the recipient \<open>a\<close> does not take the payment.
\<close>

definition transfer_reverts :: "parking_state \<Rightarrow> call_env \<Rightarrow> address \<Rightarrow> nat \<Rightarrow> bool" where
  "transfer_reverts s e a amount = (sys_balance s < amount \<or> \<not> accepts_ether e a amount)"

definition MIN_RESERVATION_TIME :: nat where
  "MIN_RESERVATION_TIME = 3600"

definition MAX_RESERVATION_TIME :: nat where
  "MAX_RESERVATION_TIME = 86400"

text \<open>What a call leaves behind: the events in the order emitted, and the ether sent.\<close>

datatype parking_effect =
    SpotCreated nat string nat
  | ReservationCreated nat address nat nat nat nat
  | ReservationStarted nat nat
  | ReservationCompleted nat nat nat nat
  | ReservationCancelled nat nat
  | SpotOccupancyChanged nat bool address
  | PlatformFeeUpdated nat
  | OracleUpdated address
  | SysOwnershipTransferred address address
  | SysPaused address
  | SysUnpaused address
  | Transfer address nat

type_synonym parking_result = "error + parking_state \<times> parking_effect list"

definition parking_constructor :: "call_env \<Rightarrow> address \<Rightarrow> parking_state" where
  "parking_constructor e a =
     \<lparr>parkingSpots = (\<lambda>_. zero_ParkingSpot),
      reservations = (\<lambda>_. zero_Reservation),
      userReservations = (\<lambda>_. []),
      spotExists = (\<lambda>_. False),
      nextSpotId = 1,
      nextReservationId = 1,
      platformFeePercentage = 10,
      totalPlatformEarnings = 0,
      oracleAddress = a,
      sys_owner = msg_sender e,
      sys_paused = False,
      sys_balance = 0\<rparr>"

subsection \<open>Spots and reservations\<close>

definition createParkingSpot :: "parking_state \<Rightarrow> call_env \<Rightarrow> string \<Rightarrow> nat \<Rightarrow> parking_result" where
  "createParkingSpot s e location hourlyRate =
     (if msg_sender e \<noteq> sys_owner s then Inl OwnableUnauthorizedAccount
      else if \<not> hourlyRate > 0 then Inl RateMustBePositive
      else if overflow (nextSpotId s + 1) then Inl Panic
      else
        let spotId = nextSpotId s
        in Inr (s\<lparr>nextSpotId := nextSpotId s + 1,
                  parkingSpots := (parkingSpots s)(spotId :=
                    \<lparr>spot_spotId = spotId, spot_location = location, spot_hourlyRate = hourlyRate,
                     spot_isActive = True, spot_isOccupied = False, spot_currentUser = 0,
                     spot_reservationEnd = 0, spot_totalEarnings = 0, spot_totalOccupations = 0\<rparr>),
                  spotExists := (spotExists s)(spotId := True)\<rparr>,
                [SpotCreated spotId location hourlyRate]))"

text \<open>
  \<^verbatim>\<open>reserveSpot\<close> is payable: \<open>msg_value\<close> is the ether sent with the call. The guards are
  \<^verbatim>\<open>whenNotPaused\<close>, \<^verbatim>\<open>spotExistsModifier\<close> and the seven \<^verbatim>\<open>require\<close>s in source order;
  \<^verbatim>\<open>nonReentrant\<close> never fires when calls do not nest. What was paid above the cost goes
  back to the caller with \<^verbatim>\<open>transfer\<close>, and the call reverts when the caller does not
  take it.
\<close>

definition reserveSpot ::
  "parking_state \<Rightarrow> call_env \<Rightarrow> nat \<Rightarrow> nat \<Rightarrow> nat \<Rightarrow> nat \<Rightarrow> parking_result" where
  "reserveSpot s e spotId startTime endTime msg_value =
     (if sys_paused s then Inl EnforcedPause
      else if \<not> spotExists s spotId then Inl SpotNotFound
      else
        let spot = parkingSpots s spotId in
        if \<not> spot_isActive spot then Inl SpotInactive
        else if \<not> \<not> spot_isOccupied spot then Inl SpotOccupied
        else if \<not> startTime \<ge> block_timestamp e then Inl InvalidStartTime
        else if \<not> endTime > startTime then Inl InvalidEndTime
        else if \<not> endTime - startTime \<ge> MIN_RESERVATION_TIME then Inl MinDurationNotMet
        else if \<not> endTime - startTime \<le> MAX_RESERVATION_TIME then Inl MaxDurationExceeded
        else if \<not> startTime \<ge> spot_reservationEnd spot then Inl SpotAlreadyReserved
        else
          let duration = endTime - startTime in
          if overflow (duration * spot_hourlyRate spot) then Inl Panic
          else
            let totalCost = (duration * spot_hourlyRate spot) div 3600 in
            if \<not> msg_value \<ge> totalCost then Inl InsufficientPayment
            else if overflow (nextReservationId s + 1) then Inl Panic
            else
              let reservationId = nextReservationId s;
                  s1 = s\<lparr>nextReservationId := nextReservationId s + 1,
                         reservations := (reservations s)(reservationId :=
                           \<lparr>res_reservationId = reservationId, res_user = msg_sender e,
                            res_spotId = spotId, res_startTime = startTime, res_endTime = endTime,
                            res_totalCost = totalCost, res_paidAmount = msg_value,
                            res_status = Active, res_actualStartTime = 0, res_actualEndTime = 0\<rparr>),
                         userReservations := (userReservations s)(msg_sender e :=
                           userReservations s (msg_sender e) @ [reservationId]),
                         parkingSpots := (parkingSpots s)(spotId := spot\<lparr>spot_reservationEnd := endTime\<rparr>),
                         sys_balance := sys_balance s + msg_value\<rparr>
              in if msg_value > totalCost
                 then
                   if transfer_reverts s1 e (msg_sender e) (msg_value - totalCost) then Inl TransferFailed
                   else Inr (s1\<lparr>sys_balance := sys_balance s1 - (msg_value - totalCost)\<rparr>,
                           [Transfer (msg_sender e) (msg_value - totalCost),
                            ReservationCreated reservationId (msg_sender e) spotId startTime endTime totalCost])
                 else Inr (s1,
                           [ReservationCreated reservationId (msg_sender e) spotId startTime endTime totalCost]))"

definition startReservation :: "parking_state \<Rightarrow> call_env \<Rightarrow> nat \<Rightarrow> parking_result" where
  "startReservation s e reservationId =
     (if \<not> msg_sender e = oracleAddress s then Inl OnlyOracle
      else if \<not> reservationId < nextReservationId s then Inl ReservationNotFound
      else
        let reservation = reservations s reservationId in
        if \<not> res_status reservation = Active then Inl ReservationNotActive
        else if \<not> res_actualStartTime reservation = 0 then Inl ReservationAlreadyStarted
        else
          let spot = parkingSpots s (res_spotId reservation) in
          if overflow (spot_totalOccupations spot + 1) then Inl Panic
          else Inr (s\<lparr>reservations := (reservations s)(reservationId :=
                         reservation\<lparr>res_actualStartTime := block_timestamp e\<rparr>),
                       parkingSpots := (parkingSpots s)(res_spotId reservation :=
                         spot\<lparr>spot_isOccupied := True, spot_currentUser := res_user reservation,
                              spot_totalOccupations := spot_totalOccupations spot + 1\<rparr>)\<rparr>,
                    [ReservationStarted reservationId (block_timestamp e),
                     SpotOccupancyChanged (res_spotId reservation) True (res_user reservation)]))"

text \<open>
  \<^verbatim>\<open>completeReservation\<close>. Each arithmetic step of the settlement is checked in source
  order: the duration, the cost, the fee, the spot's share, the two accumulators; the
  refund is sent last and only when the escrow exceeds the cost.
\<close>

definition completeReservation :: "parking_state \<Rightarrow> call_env \<Rightarrow> nat \<Rightarrow> parking_result" where
  "completeReservation s e reservationId =
     (if \<not> msg_sender e = oracleAddress s then Inl OnlyOracle
      else if \<not> reservationId < nextReservationId s then Inl ReservationNotFound
      else
        let reservation = reservations s reservationId in
        if \<not> res_status reservation = Active then Inl ReservationNotActive
        else if \<not> res_actualStartTime reservation > 0 then Inl ReservationNotStarted
        else if \<not> res_actualEndTime reservation = 0 then Inl ReservationAlreadyCompleted
        else
          let spot = parkingSpots s (res_spotId reservation);
              reservation1 = reservation\<lparr>res_actualEndTime := block_timestamp e, res_status := Completed\<rparr>;
              spot1 = spot\<lparr>spot_isOccupied := False, spot_currentUser := 0\<rparr>
          in
          if underflow (res_actualEndTime reservation1) (res_actualStartTime reservation1) then Inl Panic
          else
            let actualDuration = res_actualEndTime reservation1 - res_actualStartTime reservation1 in
            if overflow (actualDuration * spot_hourlyRate spot1) then Inl Panic
            else
              let actualCost = (actualDuration * spot_hourlyRate spot1) div 3600 in
              if overflow (actualCost * platformFeePercentage s) then Inl Panic
              else
                let platformFee = (actualCost * platformFeePercentage s) div 100 in
                if underflow actualCost platformFee then Inl Panic
                else
                  let spotEarnings = actualCost - platformFee in
                  if overflow (spot_totalEarnings spot1 + spotEarnings) then Inl Panic
                  else if overflow (totalPlatformEarnings s + platformFee) then Inl Panic
                  else
                    let s1 = s\<lparr>reservations := (reservations s)(reservationId := reservation1),
                               parkingSpots := (parkingSpots s)(res_spotId reservation :=
                                 spot1\<lparr>spot_totalEarnings := spot_totalEarnings spot1 + spotEarnings\<rparr>),
                               totalPlatformEarnings := totalPlatformEarnings s + platformFee\<rparr>
                    in
                    if res_totalCost reservation1 > actualCost
                    then
                      let refundAmount = res_totalCost reservation1 - actualCost in
                      if transfer_reverts s1 e (res_user reservation1) refundAmount then Inl TransferFailed
                      else Inr (s1\<lparr>sys_balance := sys_balance s1 - refundAmount\<rparr>,
                                [Transfer (res_user reservation1) refundAmount,
                                 ReservationCompleted reservationId (block_timestamp e) actualCost refundAmount,
                                 SpotOccupancyChanged (res_spotId reservation1) False 0])
                    else Inr (s1,
                              [ReservationCompleted reservationId (block_timestamp e) actualCost 0,
                               SpotOccupancyChanged (res_spotId reservation1) False 0]))"

definition cancelReservation :: "parking_state \<Rightarrow> call_env \<Rightarrow> nat \<Rightarrow> parking_result" where
  "cancelReservation s e reservationId =
     (if \<not> reservationId < nextReservationId s then Inl ReservationNotFound
      else
        let reservation = reservations s reservationId in
        if \<not> res_user reservation = msg_sender e then Inl NotAuthorized
        else if \<not> res_status reservation = Active then Inl ReservationNotActive
        else if \<not> res_actualStartTime reservation = 0 then Inl CannotCancelAfterStart
        else if \<not> block_timestamp e < res_startTime reservation then Inl TooLateToCancel
        else
          let spot = parkingSpots s (res_spotId reservation) in
          if overflow (res_totalCost reservation * 5) then Inl Panic
          else
            let cancellationFee = (res_totalCost reservation * 5) div 100;
                refundAmount = res_totalCost reservation - cancellationFee
            in
            if overflow (totalPlatformEarnings s + cancellationFee) then Inl Panic
            else if transfer_reverts s e (msg_sender e) refundAmount then Inl TransferFailed
            else Inr (s\<lparr>reservations := (reservations s)(reservationId :=
                           reservation\<lparr>res_status := Cancelled\<rparr>),
                         parkingSpots := (parkingSpots s)(res_spotId reservation :=
                           spot\<lparr>spot_reservationEnd := 0\<rparr>),
                         totalPlatformEarnings := totalPlatformEarnings s + cancellationFee,
                         sys_balance := sys_balance s - refundAmount\<rparr>,
                      [Transfer (msg_sender e) refundAmount,
                       ReservationCancelled reservationId refundAmount]))"

subsection \<open>Administration\<close>

definition updatePlatformFee :: "parking_state \<Rightarrow> call_env \<Rightarrow> nat \<Rightarrow> parking_result" where
  "updatePlatformFee s e newFeePercentage =
     (if msg_sender e \<noteq> sys_owner s then Inl OwnableUnauthorizedAccount
      else if \<not> newFeePercentage \<le> 20 then Inl FeeTooHigh
      else Inr (s\<lparr>platformFeePercentage := newFeePercentage\<rparr>, [PlatformFeeUpdated newFeePercentage]))"

definition updateOracle :: "parking_state \<Rightarrow> call_env \<Rightarrow> address \<Rightarrow> parking_result" where
  "updateOracle s e newOracle =
     (if msg_sender e \<noteq> sys_owner s then Inl OwnableUnauthorizedAccount
      else if \<not> newOracle \<noteq> 0 then Inl InvalidOracleAddress
      else Inr (s\<lparr>oracleAddress := newOracle\<rparr>, [OracleUpdated newOracle]))"

definition withdrawPlatformEarnings :: "parking_state \<Rightarrow> call_env \<Rightarrow> parking_result" where
  "withdrawPlatformEarnings s e =
     (if msg_sender e \<noteq> sys_owner s then Inl OwnableUnauthorizedAccount
      else
        let amount = totalPlatformEarnings s in
        if transfer_reverts s e (sys_owner s) amount then Inl TransferFailed
        else Inr (s\<lparr>totalPlatformEarnings := 0, sys_balance := sys_balance s - amount\<rparr>,
                  [Transfer (sys_owner s) amount]))"

definition sys_pause :: "parking_state \<Rightarrow> call_env \<Rightarrow> parking_result" where
  "sys_pause s e =
     (if msg_sender e \<noteq> sys_owner s then Inl OwnableUnauthorizedAccount
      else if sys_paused s then Inl EnforcedPause
      else Inr (s\<lparr>sys_paused := True\<rparr>, [SysPaused (msg_sender e)]))"

definition sys_unpause :: "parking_state \<Rightarrow> call_env \<Rightarrow> parking_result" where
  "sys_unpause s e =
     (if msg_sender e \<noteq> sys_owner s then Inl OwnableUnauthorizedAccount
      else if \<not> sys_paused s then Inl ExpectedPause
      else Inr (s\<lparr>sys_paused := False\<rparr>, [SysUnpaused (msg_sender e)]))"

definition sys_transferOwnership :: "parking_state \<Rightarrow> call_env \<Rightarrow> address \<Rightarrow> parking_result" where
  "sys_transferOwnership s e newOwner =
     (if msg_sender e \<noteq> sys_owner s then Inl OwnableUnauthorizedAccount
      else if newOwner = 0 then Inl OwnableInvalidOwner
      else Inr (s\<lparr>sys_owner := newOwner\<rparr>, [SysOwnershipTransferred (sys_owner s) newOwner]))"

definition sys_renounceOwnership :: "parking_state \<Rightarrow> call_env \<Rightarrow> parking_result" where
  "sys_renounceOwnership s e =
     (if msg_sender e \<noteq> sys_owner s then Inl OwnableUnauthorizedAccount
      else Inr (s\<lparr>sys_owner := 0\<rparr>, [SysOwnershipTransferred (sys_owner s) 0]))"

subsection \<open>Transactions and runs\<close>

text \<open>
  The public functions that write storage, with the two inherited from \<^verbatim>\<open>Ownable\<close>.
  \<^verbatim>\<open>receive\<close> reverts every plain payment, so it never changes a state.
\<close>

datatype parking_call =
    CreateParkingSpot string nat
  | ReserveSpot nat nat nat nat
  | StartReservation nat
  | CompleteReservation nat
  | CancelReservation nat
  | UpdatePlatformFee nat
  | UpdateOracle address
  | WithdrawPlatformEarnings
  | SysPause
  | SysUnpause
  | SysTransferOwnership address
  | SysRenounceOwnership

fun parking_step :: "parking_state \<Rightarrow> call_env \<Rightarrow> parking_call \<Rightarrow> parking_result" where
  "parking_step s e (CreateParkingSpot location hourlyRate) = createParkingSpot s e location hourlyRate"
| "parking_step s e (ReserveSpot spotId startTime endTime msg_value) =
     reserveSpot s e spotId startTime endTime msg_value"
| "parking_step s e (StartReservation reservationId) = startReservation s e reservationId"
| "parking_step s e (CompleteReservation reservationId) = completeReservation s e reservationId"
| "parking_step s e (CancelReservation reservationId) = cancelReservation s e reservationId"
| "parking_step s e (UpdatePlatformFee p) = updatePlatformFee s e p"
| "parking_step s e (UpdateOracle a) = updateOracle s e a"
| "parking_step s e WithdrawPlatformEarnings = withdrawPlatformEarnings s e"
| "parking_step s e SysPause = sys_pause s e"
| "parking_step s e SysUnpause = sys_unpause s e"
| "parking_step s e (SysTransferOwnership a) = sys_transferOwnership s e a"
| "parking_step s e SysRenounceOwnership = sys_renounceOwnership s e"

fun parking_run :: "parking_state \<Rightarrow> (call_env \<times> parking_call) list \<Rightarrow> parking_state" where
  "parking_run s [] = s"
| "parking_run s ((e, c) # cs) =
     (case parking_step s e c of Inl err \<Rightarrow> parking_run s cs | Inr (s1, effs) \<Rightarrow> parking_run s1 cs)"

subsection \<open>Quantities read off the storage\<close>

text \<open>
  The cost the settlement charges for a reservation, from the times stored in it and the
  rate of its spot (lines 242 and 243 of the contract).
\<close>

definition actualCost_of :: "parking_state \<Rightarrow> Reservation \<Rightarrow> nat" where
  "actualCost_of s r =
     ((res_actualEndTime r - res_actualStartTime r)
        * spot_hourlyRate (parkingSpots s (res_spotId r))) div 3600"

text \<open>The fee a cancellation keeps (line 283).\<close>

definition cancellationFee_of :: "Reservation \<Rightarrow> nat" where
  "cancellationFee_of r = (res_totalCost r * 5) div 100"

text \<open>
  Sums over the storage. Spot ids and reservation ids are handed out by the two counters,
  so every slot that was ever written lies below its counter.
\<close>

definition spots_totalEarnings :: "parking_state \<Rightarrow> nat" where
  "spots_totalEarnings s = (\<Sum>i<nextSpotId s. spot_totalEarnings (parkingSpots s i))"

definition completed_actualCost :: "parking_state \<Rightarrow> nat" where
  "completed_actualCost s =
     (\<Sum>i<nextReservationId s.
        if res_status (reservations s i) = Completed then actualCost_of s (reservations s i) else 0)"

definition cancelled_fees :: "parking_state \<Rightarrow> nat" where
  "cancelled_fees s =
     (\<Sum>i<nextReservationId s.
        if res_status (reservations s i) = Cancelled then cancellationFee_of (reservations s i) else 0)"

text \<open>What the successful \<^verbatim>\<open>withdrawPlatformEarnings\<close> calls of a run paid out.\<close>

fun total_withdrawn :: "parking_state \<Rightarrow> (call_env \<times> parking_call) list \<Rightarrow> nat" where
  "total_withdrawn s [] = 0"
| "total_withdrawn s ((e, c) # cs) =
     (case parking_step s e c of
        Inl err \<Rightarrow> total_withdrawn s cs
      | Inr (s1, effs) \<Rightarrow>
          (if c = WithdrawPlatformEarnings then totalPlatformEarnings s else 0)
            + total_withdrawn s1 cs)"

text \<open>Two reservations of one spot whose windows \<open>[start, end)\<close> share an instant.\<close>

definition windows_overlap :: "Reservation \<Rightarrow> Reservation \<Rightarrow> bool" where
  "windows_overlap a b =
     (res_spotId a = res_spotId b \<and> res_startTime a < res_endTime b \<and> res_startTime b < res_endTime a)"

section \<open>Observations on runs\<close>

subsection \<open>Accepted readings\<close>

text \<open>
  A call of \<^verbatim>\<open>updateSensorData\<close> that returns has either stored its reading, and then it
  emitted \<^verbatim>\<open>SensorDataUpdated\<close>, or declined it, and then it emitted
  \<^verbatim>\<open>DataValidationFailed\<close>.
\<close>

fun is_SensorDataUpdated :: "oracle_event \<Rightarrow> bool" where
  "is_SensorDataUpdated (SensorDataUpdated spot occupied conf a sensorType) = True"
| "is_SensorDataUpdated ev = False"

definition reading_accepted :: "oracle_event list \<Rightarrow> bool" where
  "reading_accepted evs = (\<exists>ev \<in> set evs. is_SensorDataUpdated ev)"

text \<open>The content hashes of the readings a run stored, in the order they were stored.\<close>

fun accepted_hashes :: "oracle_state \<Rightarrow> (call_env \<times> oracle_call) list \<Rightarrow> bytes32 list" where
  "accepted_hashes s [] = []"
| "accepted_hashes s ((e, UpdateSensorData spot occupied conf sensorType h) # cs) =
     (case updateSensorData s e spot occupied conf sensorType h of
        Inl err \<Rightarrow> accepted_hashes s cs
      | Inr (s1, evs) \<Rightarrow>
          if reading_accepted evs then h # accepted_hashes s1 cs else accepted_hashes s1 cs)"
| "accepted_hashes s ((e, c) # cs) = accepted_hashes (oracle_run s [(e, c)]) cs"

text \<open>
  Whether a run registers the node \<open>a\<close>: one of its calls returns and emits
  \<^verbatim>\<open>OracleNodeAdded\<close> for \<open>a\<close>, which only a successful \<^verbatim>\<open>addOracleNode\<close> does.
\<close>

fun is_OracleNodeAdded :: "address \<Rightarrow> oracle_event \<Rightarrow> bool" where
  "is_OracleNodeAdded a (OracleNodeAdded b nodeId) = (b = a)"
| "is_OracleNodeAdded a ev = False"

fun registers :: "oracle_state \<Rightarrow> (call_env \<times> oracle_call) list \<Rightarrow> address \<Rightarrow> bool" where
  "registers s [] a = False"
| "registers s ((e, c) # cs) a =
     (case oracle_step s e c of
        Inl err \<Rightarrow> registers s cs a
      | Inr (s1, evs) \<Rightarrow> list_ex (is_OracleNodeAdded a) evs \<or> registers s1 cs a)"

subsection \<open>Predicates on the storage\<close>

definition reputation_bounded :: "oracle_state \<Rightarrow> bool" where
  "reputation_bounded s = (\<forall>a. node_reputation (oracleNodes s a) \<le> 1000)"

text \<open>
  Every reservation slot names a spot slot below the spot counter, and so does every
  existing spot.
\<close>

definition ledger_inv :: "parking_state \<Rightarrow> bool" where
  "ledger_inv s =
     ((\<forall>i. res_spotId (reservations s i) < nextSpotId s)
      \<and> (\<forall>i. spotExists s i \<longrightarrow> i < nextSpotId s))"

text \<open>
  The books: what the spots and the platform hold, plus \<open>w\<close> already paid out to the
  owner, against what completions and cancellations brought in.
\<close>

definition ledger_balanced :: "parking_state \<Rightarrow> nat \<Rightarrow> bool" where
  "ledger_balanced s w =
     (spots_totalEarnings s + totalPlatformEarnings s + w = completed_actualCost s + cancelled_fees s)"

subsection \<open>Example runs\<close>

text \<open>
  A call by an externally owned account, on a chain where every account takes ether; and
  a call by a contract that has no payable \<^verbatim>\<open>receive\<close> or \<^verbatim>\<open>fallback\<close>, so that a
  payment to the caller fails.
\<close>

definition call_by :: "address \<Rightarrow> nat \<Rightarrow> call_env" where
  "call_by a t = \<lparr>msg_sender = a, block_timestamp = t, accepts_ether = (\<lambda>_ _. True)\<rparr>"

definition call_by_contract :: "address \<Rightarrow> nat \<Rightarrow> call_env" where
  "call_by_contract a t =
     \<lparr>msg_sender = a, block_timestamp = t, accepts_ether = (\<lambda>b _. b \<noteq> a)\<rparr>"

text \<open>
  The oracle contract deployed by account 1, which registers the nodes 2 and 3; then one
  reading of spot 1 by node 2.
\<close>

definition oracle_deployed :: oracle_state where
  "oracle_deployed = oracle_run (oracle_constructor (call_by 1 1000) 0)
     [(call_by 1 1010, AddOracleNode 2 ''main-oracle-node''),
      (call_by 1 1020, AddOracleNode 3 ''second-node'')]"

definition oracle_one_reading :: oracle_state where
  "oracle_one_reading = oracle_run oracle_deployed
     [(call_by 2 2000, UpdateSensorData 1 True 90 ''camera'' 7)]"

text \<open>Node 2 after the owner has set its score to 105.\<close>

definition oracle_low_reputation :: oracle_state where
  "oracle_low_reputation = oracle_run oracle_deployed
     [(call_by 1 1500, UpdateOracleReputation 2 105)]"

text \<open>
  Node 2 then submits a reading with confidence 101, which is declined and costs it ten
  points; after that the owner registers node 2 a second time.
\<close>

definition oracle_penalised :: oracle_state where
  "oracle_penalised = oracle_run oracle_low_reputation
     [(call_by 2 2000, UpdateSensorData 1 True 101 ''camera'' 7)]"

definition oracle_registered_again :: oracle_state where
  "oracle_registered_again = oracle_run oracle_penalised
     [(call_by 1 2300, AddOracleNode 2 ''main-oracle-node'')]"

text \<open>
  One hundred readings of spot 1 by node 2, thirty seconds apart, the \<open>i\<close>-th with
  content hash \<open>i\<close>; then one more.
\<close>

definition stored_reading :: "nat \<Rightarrow> SensorData" where
  "stored_reading i = \<lparr>data_spotId = 1, data_isOccupied = True, data_confidence = 90,
     data_timestamp = 2000 + 30 * i, data_sensorType = ''camera'', data_dataHash = of_nat i\<rparr>"

definition reading_call :: "nat \<Rightarrow> call_env \<times> oracle_call" where
  "reading_call i = (call_by 2 (2000 + 30 * i), UpdateSensorData 1 True 90 ''camera'' (of_nat i))"

definition oracle_readings :: "nat \<Rightarrow> oracle_state" where
  "oracle_readings n = oracle_run oracle_deployed (map reading_call [0..<n])"

text \<open>What \<open>n\<close> such readings leave behind, as far as the next one depends on it.\<close>

definition readings_state :: "nat \<Rightarrow> oracle_state \<Rightarrow> bool" where
  "readings_state n s =
     (node_isActive (oracleNodes s 2) \<and> \<not> orc_paused s
      \<and> node_totalUpdates (oracleNodes s 2) = n
      \<and> node_reputation (oracleNodes s 2) = 500 + n
      \<and> latestSensorData s 1 = (if n = 0 then zero_SensorData else stored_reading (n - 1))
      \<and> sensorHistory s 1 = map stored_reading [0..<n]
      \<and> (\<forall>h. processedDataHashes s h \<longrightarrow> (\<exists>i<n. h = of_nat i)))"

definition oracle_history_full :: oracle_state where
  "oracle_history_full = oracle_readings 100"

definition oracle_history_overrun :: oracle_state where
  "oracle_history_overrun = oracle_run oracle_history_full [reading_call 100]"

text \<open>
  The parking contract deployed by account 1 with oracle account 9 and one spot at 100 wei
  an hour; account 5 reserves the hour from 5000 to 8600; the oracle starts it on time.
\<close>

definition parking_deployed :: parking_state where
  "parking_deployed = parking_run (parking_constructor (call_by 1 1000) 9)
     [(call_by 1 1100, CreateParkingSpot ''A1'' 100)]"

definition parking_reserved :: parking_state where
  "parking_reserved = parking_run parking_deployed
     [(call_by 5 2000, ReserveSpot 1 5000 8600 100)]"

definition parking_started :: parking_state where
  "parking_started = parking_run parking_reserved
     [(call_by 9 5000, StartReservation 1)]"

text \<open>The car leaves after half an hour, or after two hours.\<close>

definition parking_completed :: parking_state where
  "parking_completed = parking_run parking_started
     [(call_by 9 6800, CompleteReservation 1)]"


text \<open>Or account 5 cancels before the start.\<close>

definition parking_cancelled :: parking_state where
  "parking_cancelled = parking_run parking_reserved
     [(call_by 5 2500, CancelReservation 1)]"

text \<open>
  After the first reservation, account 6 reserves the following hour and cancels it; then
  account 7 asks for the hour account 5 holds.
\<close>

definition parking_second_cancelled :: parking_state where
  "parking_second_cancelled = parking_run parking_reserved
     [(call_by 6 2100, ReserveSpot 1 8600 12200 100),
      (call_by 6 2200, CancelReservation 2)]"

definition parking_double_booked :: parking_state where
  "parking_double_booked = parking_run parking_second_cancelled
     [(call_by 7 2300, ReserveSpot 1 5000 8600 100)]"

text \<open>
  A run with a cancellation, a withdrawal and a completion: the second reservation is
  cancelled, the owner withdraws, the first reservation is used for half an hour.
\<close>

definition ledger_example :: "(call_env \<times> parking_call) list" where
  "ledger_example =
     [(call_by 1 1100, CreateParkingSpot ''A1'' 100),
      (call_by 5 2000, ReserveSpot 1 5000 8600 100),
      (call_by 6 2100, ReserveSpot 1 8600 12200 100),
      (call_by 6 2200, CancelReservation 2),
      (call_by 1 2300, WithdrawPlatformEarnings),
      (call_by 9 5000, StartReservation 1),
      (call_by 9 6800, CompleteReservation 1)]"

section \<open>Verification of ParkingOracle\<close>

subsection \<open>The bounded history\<close>

lemma shift_history_loop_full:
  "length h = MAX_HISTORY_SIZE \<Longrightarrow>
   shift_history_loop 0 (h @ [d]) = (h @ [d])[0 := (h @ [d]) ! 1]"
  apply (subst shift_history_loop.simps)
  apply (subst shift_history_loop.simps)
  apply (simp add: MAX_HISTORY_SIZE_def)
  done

lemma append_history_full:
  assumes len: "length h = MAX_HISTORY_SIZE"
  shows "append_history h d = h[0 := h ! 1]"
proof -
  from len obtain x y t where h: "h = x # y # t"
    by (cases h; cases "tl h"; simp add: MAX_HISTORY_SIZE_def)
  have "append_history h d = butlast ((h @ [d])[0 := (h @ [d]) ! 1])"
    using len by (simp add: append_history_def Let_def shift_history_loop_full)
  also have "\<dots> = h[0 := h ! 1]"
    by (simp add: h butlast_append)
  finally show ?thesis .
qed

lemma append_history_below:
  "length h < MAX_HISTORY_SIZE \<Longrightarrow> append_history h d = h @ [d]"
  by (simp add: append_history_def Let_def)

subsection \<open>Reward and penalty, field by field\<close>

lemma penalizeOracle_keeps:
  "latestSensorData (fst (penalizeOracle s a)) = latestSensorData s"
  "sensorHistory (fst (penalizeOracle s a)) = sensorHistory s"
  "processedDataHashes (fst (penalizeOracle s a)) = processedDataHashes s"
  by (simp_all add: penalizeOracle_def Let_def)

lemma rewardOracle_keeps:
  "latestSensorData (rewardOracle s a) = latestSensorData s"
  "sensorHistory (rewardOracle s a) = sensorHistory s"
  "processedDataHashes (rewardOracle s a) = processedDataHashes s"
  by (simp_all add: rewardOracle_def Let_def)

lemma rewardOracle_reputation:
  "node_reputation (oracleNodes (rewardOracle s a) b) =
     (if b = a \<and> node_reputation (oracleNodes s a) < 1000
      then node_reputation (oracleNodes s a) + 1
      else node_reputation (oracleNodes s b))"
  by (simp add: rewardOracle_def Let_def)

lemma rewardOracle_isActive:
  "node_isActive (oracleNodes (rewardOracle s a) b) = node_isActive (oracleNodes s b)"
  by (simp add: rewardOracle_def Let_def)

lemma penalizeOracle_reputation:
  "node_reputation (oracleNodes (fst (penalizeOracle s a)) b) =
     (if b = a \<and> node_reputation (oracleNodes s a) > 10
      then node_reputation (oracleNodes s a) - 10
      else node_reputation (oracleNodes s b))"
  by (simp add: penalizeOracle_def Let_def)

lemma penalizeOracle_isActive:
  "node_isActive (oracleNodes (fst (penalizeOracle s a)) b) =
     (if b = a then node_isActive (oracleNodes s a)
                    \<and> \<not> node_reputation (oracleNodes (fst (penalizeOracle s a)) a) < 100
      else node_isActive (oracleNodes s b))"
  by (simp add: penalizeOracle_def Let_def)

lemma penalizeOracle_events:
  "reading_accepted (ev # snd (penalizeOracle s a)) = is_SensorDataUpdated ev"
  by (simp add: penalizeOracle_def Let_def reading_accepted_def)

subsection \<open>What a returning \<^verbatim>\<open>updateSensorData\<close> did\<close>

lemma updateSensorData_Inr_guards:
  assumes "updateSensorData s e spot occupied conf sensorType h = Inr r"
  shows "node_isActive (oracleNodes s (msg_sender e))" "\<not> orc_paused s" "spot > 0"
    "\<not> overflow (data_timestamp (latestSensorData s spot) + UPDATE_COOLDOWN)"
    "block_timestamp e \<ge> data_timestamp (latestSensorData s spot) + UPDATE_COOLDOWN"
    "conf \<ge> MIN_CONFIDENCE" "\<not> processedDataHashes s h" "length sensorType > 0"
  using assms by (simp_all add: updateSensorData_def split: if_splits)

lemma updateSensorData_Inr_cases [consumes 1, case_names rejected accepted]:
  assumes "updateSensorData s e spot occupied conf sensorType h = Inr (s1, evs)"
  obtains
    (rejected) "s1 = fst (penalizeOracle s (msg_sender e))"
      "evs = DataValidationFailed (msg_sender e) spot validation_failed_reason
               # snd (penalizeOracle s (msg_sender e))"
  | (accepted) "evs = [SensorDataUpdated spot occupied conf (msg_sender e) sensorType]"
      "processedDataHashes s1 = (processedDataHashes s)(h := True)"
      "sensorHistory s1 = (sensorHistory s)(spot := append_history (sensorHistory s spot)
               \<lparr>data_spotId = spot, data_isOccupied = occupied, data_confidence = conf,
                data_timestamp = block_timestamp e, data_sensorType = sensorType,
                data_dataHash = h\<rparr>)"
      "latestSensorData s1 = (latestSensorData s)(spot :=
               \<lparr>data_spotId = spot, data_isOccupied = occupied, data_confidence = conf,
                data_timestamp = block_timestamp e, data_sensorType = sensorType,
                data_dataHash = h\<rparr>)"
      "oracleNodes s1 = oracleNodes (rewardOracle
               (s\<lparr>oracleNodes := (oracleNodes s)(msg_sender e := (oracleNodes s (msg_sender e))
                    \<lparr>node_totalUpdates := node_totalUpdates (oracleNodes s (msg_sender e)) + 1,
                     node_lastUpdate := block_timestamp e\<rparr>)\<rparr>) (msg_sender e))"
      "orc_paused s1 = orc_paused s"
proof -
  note g = updateSensorData_Inr_guards [OF assms]
  show ?thesis
  proof (cases "validateSensorData s e spot occupied conf sensorType")
    case (Inl err)
    with assms g show ?thesis by (simp add: updateSensorData_def)
  next
    case (Inr ok)
    show ?thesis
    proof (cases ok)
      case False
      with assms [symmetric] g Inr have
        "s1 = fst (penalizeOracle s (msg_sender e))"
        "evs = DataValidationFailed (msg_sender e) spot validation_failed_reason
               # snd (penalizeOracle s (msg_sender e))"
        by (simp_all add: updateSensorData_def split: prod.splits)
      then show ?thesis by (rule rejected)
    next
      case True
      with assms [symmetric] g Inr have
        "evs = [SensorDataUpdated spot occupied conf (msg_sender e) sensorType]"
        "processedDataHashes s1 = (processedDataHashes s)(h := True)"
        "sensorHistory s1 = (sensorHistory s)(spot := append_history (sensorHistory s spot)
               \<lparr>data_spotId = spot, data_isOccupied = occupied, data_confidence = conf,
                data_timestamp = block_timestamp e, data_sensorType = sensorType,
                data_dataHash = h\<rparr>)"
        "latestSensorData s1 = (latestSensorData s)(spot :=
               \<lparr>data_spotId = spot, data_isOccupied = occupied, data_confidence = conf,
                data_timestamp = block_timestamp e, data_sensorType = sensorType,
                data_dataHash = h\<rparr>)"
        "oracleNodes s1 = oracleNodes (rewardOracle
               (s\<lparr>oracleNodes := (oracleNodes s)(msg_sender e := (oracleNodes s (msg_sender e))
                    \<lparr>node_totalUpdates := node_totalUpdates (oracleNodes s (msg_sender e)) + 1,
                     node_lastUpdate := block_timestamp e\<rparr>)\<rparr>) (msg_sender e))"
        "orc_paused s1 = orc_paused s"
        by (simp_all add: updateSensorData_def Let_def rewardOracle_keeps notifyParkingSystem_def
            rewardOracle_def split: if_splits)
      then show ?thesis by (rule accepted)
    qed
  qed
qed

lemma updateSensorData_accepted:
  assumes "updateSensorData s e spot occupied conf sensorType h = Inr (s1, evs)"
    and "reading_accepted evs"
  shows "processedDataHashes s1 = (processedDataHashes s)(h := True)"
  using assms(1)
proof (cases rule: updateSensorData_Inr_cases)
  case rejected
  with assms(2) show ?thesis by (simp add: penalizeOracle_events)
next
  case accepted
  then show ?thesis by simp
qed

lemma updateSensorData_processed_mono:
  assumes "updateSensorData s e spot occupied conf sensorType h = Inr (s1, evs)"
    and "processedDataHashes s h'"
  shows "processedDataHashes s1 h'"
  using assms(1)
proof (cases rule: updateSensorData_Inr_cases)
  case rejected
  with assms(2) show ?thesis by (simp add: penalizeOracle_keeps)
next
  case accepted
  with assms(2) show ?thesis by simp
qed

lemma updateSensorData_inactive:
  "\<not> node_isActive (oracleNodes s (msg_sender e)) \<Longrightarrow>
   updateSensorData s e spot occupied conf sensorType h = Inl OracleNotAuthorized"
  by (simp add: updateSensorData_def)

lemma updateSensorData_processed_fails:
  "processedDataHashes s h \<Longrightarrow> \<exists>err. updateSensorData s e spot occupied conf sensorType h = Inl err"
  by (simp add: updateSensorData_def)

lemma updateSensorData_processed_replay:
  "processedDataHashes s h \<Longrightarrow> node_isActive (oracleNodes s (msg_sender e)) \<Longrightarrow> \<not> orc_paused s \<Longrightarrow>
   spot > 0 \<Longrightarrow> \<not> overflow (data_timestamp (latestSensorData s spot) + UPDATE_COOLDOWN) \<Longrightarrow>
   block_timestamp e \<ge> data_timestamp (latestSensorData s spot) + UPDATE_COOLDOWN \<Longrightarrow>
   conf \<ge> MIN_CONFIDENCE \<Longrightarrow>
   updateSensorData s e spot occupied conf sensorType h = Inl DataAlreadyProcessed"
  by (simp add: updateSensorData_def)

subsection \<open>The processed set along a run\<close>

lemma oracle_step_processed_mono:
  assumes "oracle_step s e c = Inr (s1, evs)" and "processedDataHashes s h"
  shows "processedDataHashes s1 h"
proof (cases c)
  case (UpdateSensorData spot occupied conf sensorType h')
  then show ?thesis
    using assms updateSensorData_processed_mono [of s e spot occupied conf sensorType h' s1 evs h]
    by simp
next
  case (AddOracleNode a n)
  then show ?thesis using assms by (auto simp add: addOracleNode_def split: if_splits)
next
  case (RemoveOracleNode a)
  then show ?thesis using assms by (auto simp add: removeOracleNode_def split: if_splits)
next
  case (UpdateParkingSystemContract a)
  then show ?thesis using assms by (auto simp add: updateParkingSystemContract_def split: if_splits)
next
  case (UpdateOracleReputation a n)
  then show ?thesis using assms by (auto simp add: updateOracleReputation_def split: if_splits)
next
  case OrcPause
  then show ?thesis using assms by (auto simp add: orc_pause_def split: if_splits)
next
  case OrcUnpause
  then show ?thesis using assms by (auto simp add: orc_unpause_def split: if_splits)
next
  case (OrcTransferOwnership a)
  then show ?thesis using assms by (auto simp add: orc_transferOwnership_def split: if_splits)
next
  case OrcRenounceOwnership
  then show ?thesis using assms by (auto simp add: orc_renounceOwnership_def split: if_splits)
qed

lemma oracle_run_processed_mono:
  "processedDataHashes s h \<Longrightarrow> processedDataHashes (oracle_run s cs) h"
proof (induction cs arbitrary: s)
  case Nil
  then show ?case by simp
next
  case (Cons x cs)
  obtain e c where x: "x = (e, c)" by (cases x)
  show ?case
  proof (cases "oracle_step s e c")
    case (Inl err)
    then show ?thesis using Cons x by simp
  next
    case (Inr r)
    obtain s1 evs where r: "r = (s1, evs)" by (cases r)
    have "processedDataHashes s1 h"
      using oracle_step_processed_mono [of s e c s1 evs h] Inr r Cons.prems by simp
    then show ?thesis using Cons.IH x Inr r by simp
  qed
qed

lemma accepted_hashes_fresh:
  "h \<in> set (accepted_hashes s cs) \<Longrightarrow> \<not> processedDataHashes s h"
proof (induction s cs rule: accepted_hashes.induct)
  case (1 s)
  then show ?case by simp
next
  case (2 s e spot occupied conf sensorType h' cs)
  show ?case
  proof (cases "updateSensorData s e spot occupied conf sensorType h'")
    case (Inl err)
    then show ?thesis using 2 by simp
  next
    case (Inr r)
    obtain s1 evs where r: "r = (s1, evs)" by (cases r)
    have mono: "processedDataHashes s h \<Longrightarrow> processedDataHashes s1 h"
      using updateSensorData_processed_mono [of s e spot occupied conf sensorType h' s1 evs h] Inr r
      by simp
    show ?thesis
    proof (cases "reading_accepted evs")
      case True
      with "2.prems" Inr r have "h = h' \<or> h \<in> set (accepted_hashes s1 cs)" by simp
      then show ?thesis
      proof
        assume "h = h'"
        then show ?thesis using updateSensorData_Inr_guards(7) [OF Inr] by simp
      next
        assume "h \<in> set (accepted_hashes s1 cs)"
        then have "\<not> processedDataHashes s1 h" using "2.IH"(2) [OF Inr r [symmetric] True] by simp
        then show ?thesis using mono by blast
      qed
    next
      case False
      with "2.prems" Inr r have "h \<in> set (accepted_hashes s1 cs)" by simp
      then have "\<not> processedDataHashes s1 h" using "2.IH"(3) [OF Inr r [symmetric] False] by simp
      then show ?thesis using mono by blast
    qed
  qed
qed (simp only: accepted_hashes.simps, blast dest: oracle_run_processed_mono)+

lemma accepted_hashes_distinct: "distinct (accepted_hashes s cs)"
proof (induction s cs rule: accepted_hashes.induct)
  case (1 s)
  then show ?case by simp
next
  case (2 s e spot occupied conf sensorType h cs)
  show ?case
  proof (cases "updateSensorData s e spot occupied conf sensorType h")
    case (Inl err)
    then show ?thesis using 2 by simp
  next
    case (Inr r)
    obtain s1 evs where r: "r = (s1, evs)" by (cases r)
    show ?thesis
    proof (cases "reading_accepted evs")
      case True
      have "processedDataHashes s1 h"
        using updateSensorData_accepted [of s e spot occupied conf sensorType h s1 evs] Inr r True
        by simp
      then have "h \<notin> set (accepted_hashes s1 cs)"
        using accepted_hashes_fresh by blast
      then show ?thesis
        using "2.IH"(2) [OF Inr r [symmetric] True] Inr r True by simp
    next
      case False
      then show ?thesis
        using "2.IH"(3) [OF Inr r [symmetric] False] Inr r by simp
    qed
  qed
qed (simp_all only: accepted_hashes.simps)

subsection \<open>Reputation along a run\<close>

lemma reputation_step_bounded:
  assumes b: "reputation_bounded s"
  shows "reputation_bounded (reputation_step s x)"
proof -
  from b have le: "\<And>a. node_reputation (oracleNodes s a) \<le> 1000"
    by (simp add: reputation_bounded_def)
  show ?thesis
  proof (cases x)
    case (Reward a)
    then show ?thesis
      using le by (simp add: reputation_bounded_def rewardOracle_reputation)
  next
    case (Penalize a)
    have "node_reputation (oracleNodes s a) - 10 \<le> 1000"
      using le [of a] by simp
    then show ?thesis
      using le Penalize by (simp add: reputation_bounded_def penalizeOracle_reputation)
  next
    case (Override e a r)
    then show ?thesis
      using le by (simp add: reputation_bounded_def updateOracleReputation_def)
  qed
qed

lemma reputation_run_bounded:
  "reputation_bounded s \<Longrightarrow> reputation_bounded (reputation_run s xs)"
  by (induction xs arbitrary: s) (simp_all add: reputation_step_bounded)

lemma reputation_step_inactive:
  "\<not> node_isActive (oracleNodes s a) \<Longrightarrow> \<not> node_isActive (oracleNodes (reputation_step s x) a)"
  by (cases x)
     (auto simp add: rewardOracle_isActive penalizeOracle_isActive updateOracleReputation_def)

lemma reputation_run_inactive:
  "\<not> node_isActive (oracleNodes s a) \<Longrightarrow> \<not> node_isActive (oracleNodes (reputation_run s xs) a)"
  by (induction xs arbitrary: s) (simp_all add: reputation_step_inactive)


lemma updateSensorData_reputation_bounded:
  assumes "updateSensorData s e spot occupied conf sensorType h = Inr (s1, evs)"
    and b: "reputation_bounded s"
  shows "reputation_bounded s1"
  using assms(1)
proof (cases rule: updateSensorData_Inr_cases)
  case rejected
  then show ?thesis
    using reputation_step_bounded [OF b, of "Penalize (msg_sender e)"] by simp
next
  case accepted
  from b have le: "\<And>a. node_reputation (oracleNodes s a) \<le> 1000"
    by (simp add: reputation_bounded_def)
  show ?thesis
    using le by (simp add: reputation_bounded_def accepted(5) rewardOracle_reputation)
qed

lemma oracle_step_reputation_bounded:
  assumes "oracle_step s e c = Inr (s1, evs)" and b: "reputation_bounded s"
  shows "reputation_bounded s1"
proof (cases c)
  case (UpdateSensorData spot occupied conf sensorType h)
  then show ?thesis
    using assms updateSensorData_reputation_bounded [of s e spot occupied conf sensorType h s1 evs]
    by simp
next
  case (AddOracleNode a n)
  then show ?thesis
    using assms by (auto simp add: reputation_bounded_def addOracleNode_def split: if_splits)
next
  case (RemoveOracleNode a)
  then show ?thesis
    using assms by (auto simp add: reputation_bounded_def removeOracleNode_def split: if_splits)
next
  case (UpdateParkingSystemContract a)
  then show ?thesis
    using assms by (auto simp add: reputation_bounded_def updateParkingSystemContract_def split: if_splits)
next
  case (UpdateOracleReputation a n)
  then show ?thesis
    using assms by (auto simp add: reputation_bounded_def updateOracleReputation_def split: if_splits)
next
  case OrcPause
  then show ?thesis
    using assms by (auto simp add: reputation_bounded_def orc_pause_def split: if_splits)
next
  case OrcUnpause
  then show ?thesis
    using assms by (auto simp add: reputation_bounded_def orc_unpause_def split: if_splits)
next
  case (OrcTransferOwnership a)
  then show ?thesis
    using assms by (auto simp add: reputation_bounded_def orc_transferOwnership_def split: if_splits)
next
  case OrcRenounceOwnership
  then show ?thesis
    using assms by (auto simp add: reputation_bounded_def orc_renounceOwnership_def split: if_splits)
qed

lemma oracle_run_reputation_bounded:
  "reputation_bounded s \<Longrightarrow> reputation_bounded (oracle_run s cs)"
proof (induction cs arbitrary: s)
  case Nil
  then show ?case by simp
next
  case (Cons x cs)
  obtain e c where x: "x = (e, c)" by (cases x)
  show ?case
  proof (cases "oracle_step s e c")
    case (Inl err)
    then show ?thesis using Cons x by simp
  next
    case (Inr r)
    obtain s1 evs where r: "r = (s1, evs)" by (cases r)
    have "reputation_bounded s1"
      using oracle_step_reputation_bounded [of s e c s1 evs] Inr r Cons.prems by simp
    then show ?thesis using Cons.IH x Inr r by simp
  qed
qed

lemma oracle_constructor_reputation_bounded:
  "reputation_bounded (oracle_constructor e a)"
  by (simp add: reputation_bounded_def oracle_constructor_def zero_OracleNode_def)

subsection \<open>The example runs, evaluated\<close>

lemmas oracle_eval_defs = call_by_def oracle_constructor_def addOracleNode_def
  updateSensorData_def validateSensorData_def penalizeOracle_def rewardOracle_def
  updateOracleReputation_def
  shouldNotifyParkingSystem_def notifyParkingSystem_def append_history_def
  MIN_CONFIDENCE_def MAX_HISTORY_SIZE_def UPDATE_COOLDOWN_def MAX_UINT256_def
  overflow_def underflow_def zero_OracleNode_def zero_SensorData_def Let_def

lemma oracle_deployed_eq:
  "oracle_deployed =
     \<lparr>oracleNodes = (\<lambda>_. zero_OracleNode)
        (2 := \<lparr>node_nodeAddress = 2, node_isActive = True, node_reputation = 500,
               node_totalUpdates = 0, node_lastUpdate = 0, node_nodeId = ''main-oracle-node''\<rparr>,
         3 := \<lparr>node_nodeAddress = 3, node_isActive = True, node_reputation = 500,
               node_totalUpdates = 0, node_lastUpdate = 0, node_nodeId = ''second-node''\<rparr>),
      latestSensorData = (\<lambda>_. zero_SensorData),
      sensorHistory = (\<lambda>_. []),
      processedDataHashes = (\<lambda>_. False),
      activeOracles = [2, 3],
      parkingSystemContract = 0,
      orc_owner = 1,
      orc_paused = False\<rparr>"
  by (simp add: oracle_deployed_def call_by_def oracle_constructor_def addOracleNode_def
      zero_OracleNode_def)

lemma oracle_one_reading_eq:
  "oracle_one_reading =
     \<lparr>oracleNodes = (\<lambda>_. zero_OracleNode)
        (2 := \<lparr>node_nodeAddress = 2, node_isActive = True, node_reputation = 501,
               node_totalUpdates = 1, node_lastUpdate = 2000, node_nodeId = ''main-oracle-node''\<rparr>,
         3 := \<lparr>node_nodeAddress = 3, node_isActive = True, node_reputation = 500,
               node_totalUpdates = 0, node_lastUpdate = 0, node_nodeId = ''second-node''\<rparr>),
      latestSensorData = (\<lambda>_. zero_SensorData)
        (1 := \<lparr>data_spotId = 1, data_isOccupied = True, data_confidence = 90,
               data_timestamp = 2000, data_sensorType = ''camera'', data_dataHash = 7\<rparr>),
      sensorHistory = (\<lambda>_. [])
        (1 := [\<lparr>data_spotId = 1, data_isOccupied = True, data_confidence = 90,
               data_timestamp = 2000, data_sensorType = ''camera'', data_dataHash = 7\<rparr>]),
      processedDataHashes = (\<lambda>_. False)(7 := True),
      activeOracles = [2, 3],
      parkingSystemContract = 0,
      orc_owner = 1,
      orc_paused = False\<rparr>"
  apply (simp add: oracle_one_reading_def oracle_deployed_eq)
  apply (simp add: oracle_eval_defs)
  apply (simp add: fun_upd_twist)
  done

lemma oracle_low_reputation_eq:
  "oracle_low_reputation =
     \<lparr>oracleNodes = (\<lambda>_. zero_OracleNode)
        (2 := \<lparr>node_nodeAddress = 2, node_isActive = True, node_reputation = 105,
               node_totalUpdates = 0, node_lastUpdate = 0, node_nodeId = ''main-oracle-node''\<rparr>,
         3 := \<lparr>node_nodeAddress = 3, node_isActive = True, node_reputation = 500,
               node_totalUpdates = 0, node_lastUpdate = 0, node_nodeId = ''second-node''\<rparr>),
      latestSensorData = (\<lambda>_. zero_SensorData),
      sensorHistory = (\<lambda>_. []),
      processedDataHashes = (\<lambda>_. False),
      activeOracles = [2, 3],
      parkingSystemContract = 0,
      orc_owner = 1,
      orc_paused = False\<rparr>"
  apply (simp add: oracle_low_reputation_def oracle_deployed_eq)
  apply (simp add: oracle_eval_defs)
  apply (simp add: fun_upd_twist)
  done

subsection \<open>Soft rejection\<close>

text \<open>
  C7. A call of \<^verbatim>\<open>updateSensorData\<close> that passes every hard guard (active caller, not
  paused, spot id above 0, cooldown elapsed, confidence at least 70, fresh hash, non-empty
  sensor type), for a spot that has a reading whose occupancy flag differs from the
  submitted one, with a confidence below 80, returns without reverting: it emits
  \<^verbatim>\<open>DataValidationFailed\<close>, the caller takes the reputation penalty, and the latest
  reading, the histories and the set of processed hashes are what they were.
\<close>

theorem soft_rejection:
  assumes "node_isActive (oracleNodes s (msg_sender e))"
    and "\<not> orc_paused s"
    and "spot > 0"
    and "block_timestamp e \<le> MAX_UINT256"
    and "block_timestamp e \<ge> data_timestamp (latestSensorData s spot) + UPDATE_COOLDOWN"
    and "conf \<ge> MIN_CONFIDENCE"
    and "\<not> processedDataHashes s h"
    and "length sensorType > 0"
    and "data_timestamp (latestSensorData s spot) > 0"
    and "data_isOccupied (latestSensorData s spot) \<noteq> occupied"
    and "conf < 80"
  shows "updateSensorData s e spot occupied conf sensorType h =
           Inr (fst (penalizeOracle s (msg_sender e)),
                DataValidationFailed (msg_sender e) spot validation_failed_reason
                  # snd (penalizeOracle s (msg_sender e)))
         \<and> latestSensorData (fst (penalizeOracle s (msg_sender e))) = latestSensorData s
         \<and> sensorHistory (fst (penalizeOracle s (msg_sender e))) = sensorHistory s
         \<and> processedDataHashes (fst (penalizeOracle s (msg_sender e))) = processedDataHashes s"
  using assms
  by (simp add: updateSensorData_def validateSensorData_def penalizeOracle_keeps
      MIN_CONFIDENCE_def overflow_def split: prod.split)

theorem soft_rejection_witness:
  "node_isActive (oracleNodes oracle_one_reading (msg_sender (call_by 2 2100)))
   \<and> \<not> orc_paused oracle_one_reading
   \<and> (1::nat) > 0
   \<and> block_timestamp (call_by 2 2100) \<le> MAX_UINT256
   \<and> block_timestamp (call_by 2 2100)
        \<ge> data_timestamp (latestSensorData oracle_one_reading 1) + UPDATE_COOLDOWN
   \<and> (75::nat) \<ge> MIN_CONFIDENCE
   \<and> \<not> processedDataHashes oracle_one_reading 8
   \<and> length ''camera'' > 0
   \<and> data_timestamp (latestSensorData oracle_one_reading 1) > 0
   \<and> data_isOccupied (latestSensorData oracle_one_reading 1) \<noteq> False
   \<and> (75::nat) < 80
   \<and> updateSensorData oracle_one_reading (call_by 2 2100) 1 False 75 ''camera'' 8 =
        Inr (oracle_one_reading\<lparr>oracleNodes := (oracleNodes oracle_one_reading)(2 :=
               (oracleNodes oracle_one_reading 2)\<lparr>node_reputation := 491\<rparr>)\<rparr>,
             [DataValidationFailed 2 1 validation_failed_reason])"
proof -
  have h: "node_isActive (oracleNodes oracle_one_reading (msg_sender (call_by 2 2100)))"
    "\<not> orc_paused oracle_one_reading"
    "(1::nat) > 0"
    "block_timestamp (call_by 2 2100) \<le> MAX_UINT256"
    "block_timestamp (call_by 2 2100)
       \<ge> data_timestamp (latestSensorData oracle_one_reading 1) + UPDATE_COOLDOWN"
    "(75::nat) \<ge> MIN_CONFIDENCE"
    "\<not> processedDataHashes oracle_one_reading 8"
    "length ''camera'' > 0"
    "data_timestamp (latestSensorData oracle_one_reading 1) > 0"
    "data_isOccupied (latestSensorData oracle_one_reading 1) \<noteq> False"
    "(75::nat) < 80"
    by (simp_all add: oracle_one_reading_eq call_by_def MAX_UINT256_def UPDATE_COOLDOWN_def
        MIN_CONFIDENCE_def)
  have pen: "penalizeOracle oracle_one_reading 2 =
      (oracle_one_reading\<lparr>oracleNodes := (oracleNodes oracle_one_reading)(2 :=
               (oracleNodes oracle_one_reading 2)\<lparr>node_reputation := 491\<rparr>)\<rparr>, [])"
    by (simp add: oracle_one_reading_eq penalizeOracle_def)
  from soft_rejection [OF h] pen h show ?thesis
    by (simp add: call_by_def)
qed

subsection \<open>The confidence range\<close>

text \<open>
  C8 as stated fails above 100: node 2, active and past every earlier guard, submits
  confidence 101 for spot 1. The call does not revert; it emits
  \<^verbatim>\<open>DataValidationFailed\<close> and the node's score drops from 500 to 490.
\<close>

theorem confidence_above_100_counterexample:
  "node_isActive (oracleNodes oracle_deployed (msg_sender (call_by 2 2000)))
   \<and> \<not> orc_paused oracle_deployed
   \<and> block_timestamp (call_by 2 2000)
        \<ge> data_timestamp (latestSensorData oracle_deployed 1) + UPDATE_COOLDOWN
   \<and> (100::nat) < 101
   \<and> updateSensorData oracle_deployed (call_by 2 2000) 1 True 101 ''camera'' 7 =
        Inr (oracle_deployed\<lparr>oracleNodes := (oracleNodes oracle_deployed)(2 :=
               (oracleNodes oracle_deployed 2)\<lparr>node_reputation := 490\<rparr>)\<rparr>,
             [DataValidationFailed 2 1 validation_failed_reason])"
  unfolding oracle_deployed_eq
  by (simp add: oracle_eval_defs)

text \<open>
  C8, amended. For a call that passes the earlier guards (active caller, not paused, spot
  id above 0, cooldown elapsed): a confidence below 70 reverts with the
  insufficient-confidence error, so nothing changes and nobody is penalised; a confidence
  above 100 is not a hard failure: with a fresh hash and a non-empty sensor type the call
  returns, emits \<^verbatim>\<open>DataValidationFailed\<close>, penalises the caller and stores nothing.
\<close>

theorem confidence_guard:
  assumes "node_isActive (oracleNodes s (msg_sender e))"
    and "\<not> orc_paused s"
    and "spot > 0"
    and "block_timestamp e \<le> MAX_UINT256"
    and "block_timestamp e \<ge> data_timestamp (latestSensorData s spot) + UPDATE_COOLDOWN"
  shows "(conf < MIN_CONFIDENCE \<longrightarrow>
            updateSensorData s e spot occupied conf sensorType h = Inl InsufficientConfidence)
       \<and> (conf > 100 \<and> \<not> processedDataHashes s h \<and> length sensorType > 0 \<longrightarrow>
            updateSensorData s e spot occupied conf sensorType h =
              Inr (fst (penalizeOracle s (msg_sender e)),
                   DataValidationFailed (msg_sender e) spot validation_failed_reason
                     # snd (penalizeOracle s (msg_sender e)))
            \<and> latestSensorData (fst (penalizeOracle s (msg_sender e))) = latestSensorData s
            \<and> sensorHistory (fst (penalizeOracle s (msg_sender e))) = sensorHistory s
            \<and> processedDataHashes (fst (penalizeOracle s (msg_sender e))) = processedDataHashes s)"
  using assms
  by (simp add: updateSensorData_def validateSensorData_def penalizeOracle_keeps
      MIN_CONFIDENCE_def overflow_def split: prod.split)

theorem confidence_guard_witness:
  "node_isActive (oracleNodes oracle_deployed (msg_sender (call_by 2 2000)))
   \<and> \<not> orc_paused oracle_deployed
   \<and> (1::nat) > 0
   \<and> block_timestamp (call_by 2 2000) \<le> MAX_UINT256
   \<and> block_timestamp (call_by 2 2000)
        \<ge> data_timestamp (latestSensorData oracle_deployed 1) + UPDATE_COOLDOWN
   \<and> (60::nat) < MIN_CONFIDENCE
   \<and> updateSensorData oracle_deployed (call_by 2 2000) 1 True 60 ''camera'' 7
        = Inl InsufficientConfidence
   \<and> (102::nat) > 100 \<and> \<not> processedDataHashes oracle_deployed 7 \<and> length ''camera'' > 0
   \<and> updateSensorData oracle_deployed (call_by 2 2000) 1 True 102 ''camera'' 7 =
        Inr (oracle_deployed\<lparr>oracleNodes := (oracleNodes oracle_deployed)(2 :=
               (oracleNodes oracle_deployed 2)\<lparr>node_reputation := 490\<rparr>)\<rparr>,
             [DataValidationFailed 2 1 validation_failed_reason])"
proof -
  have h: "node_isActive (oracleNodes oracle_deployed (msg_sender (call_by 2 2000)))"
    "\<not> orc_paused oracle_deployed"
    "(1::nat) > 0"
    "block_timestamp (call_by 2 2000) \<le> MAX_UINT256"
    "block_timestamp (call_by 2 2000)
       \<ge> data_timestamp (latestSensorData oracle_deployed 1) + UPDATE_COOLDOWN"
    by (simp_all add: oracle_deployed_eq call_by_def MAX_UINT256_def UPDATE_COOLDOWN_def
        zero_SensorData_def)
  have c: "(60::nat) < MIN_CONFIDENCE" "(102::nat) > 100"
    "\<not> processedDataHashes oracle_deployed 7" "length ''camera'' > 0"
    by (simp_all add: MIN_CONFIDENCE_def oracle_deployed_eq)
  have pen: "penalizeOracle oracle_deployed 2 =
      (oracle_deployed\<lparr>oracleNodes := (oracleNodes oracle_deployed)(2 :=
               (oracleNodes oracle_deployed 2)\<lparr>node_reputation := 490\<rparr>)\<rparr>, [])"
    by (simp add: oracle_deployed_eq penalizeOracle_def)
  from confidence_guard [OF h, of 60 True "''camera''" 7]
    confidence_guard [OF h, of 102 True "''camera''" 7] c h pen
  show ?thesis
    by (simp add: call_by_def)
qed

subsection \<open>Reputation bounds and deactivation\<close>

lemma oracle_step_inactive:
  assumes "oracle_step s e c = Inr (s1, evs)"
    and "\<not> node_isActive (oracleNodes s a)"
    and "\<And>nodeId. c \<noteq> AddOracleNode a nodeId"
  shows "\<not> node_isActive (oracleNodes s1 a)"
proof (cases c)
  case (UpdateSensorData spot occupied conf sensorType h)
  then have "updateSensorData s e spot occupied conf sensorType h = Inr (s1, evs)"
    using assms(1) by simp
  then show ?thesis
  proof (cases rule: updateSensorData_Inr_cases)
    case rejected
    then show ?thesis using assms(2) by (auto simp add: penalizeOracle_isActive)
  next
    case accepted
    then show ?thesis using assms(2) by (auto simp add: rewardOracle_isActive)
  qed
next
  case (AddOracleNode b n)
  with assms(3) [of n] have "b \<noteq> a" by auto
  then show ?thesis
    using assms(1,2) AddOracleNode by (auto simp add: addOracleNode_def split: if_splits)
next
  case (RemoveOracleNode b)
  then show ?thesis
    using assms by (auto simp add: removeOracleNode_def split: if_splits)
next
  case (UpdateParkingSystemContract b)
  then show ?thesis
    using assms by (auto simp add: updateParkingSystemContract_def split: if_splits)
next
  case (UpdateOracleReputation b n)
  then show ?thesis
    using assms by (auto simp add: updateOracleReputation_def split: if_splits)
next
  case OrcPause
  then show ?thesis using assms by (auto simp add: orc_pause_def split: if_splits)
next
  case OrcUnpause
  then show ?thesis using assms by (auto simp add: orc_unpause_def split: if_splits)
next
  case (OrcTransferOwnership b)
  then show ?thesis using assms by (auto simp add: orc_transferOwnership_def split: if_splits)
next
  case OrcRenounceOwnership
  then show ?thesis using assms by (auto simp add: orc_renounceOwnership_def split: if_splits)
qed

lemma oracle_run_inactive:
  assumes "\<not> node_isActive (oracleNodes s a)"
    and "\<And>nodeId. AddOracleNode a nodeId \<notin> snd ` set cs"
  shows "\<not> node_isActive (oracleNodes (oracle_run s cs) a)"
  using assms
proof (induction cs arbitrary: s)
  case Nil
  then show ?case by simp
next
  case (Cons x cs)
  obtain e c where x: "x = (e, c)" by (cases x)
  have c: "\<And>nodeId. c \<noteq> AddOracleNode a nodeId"
    and cs: "\<And>nodeId. AddOracleNode a nodeId \<notin> snd ` set cs"
    using Cons.prems(2) x by auto
  show ?case
  proof (cases "oracle_step s e c")
    case (Inl err)
    then show ?thesis using Cons.IH [OF Cons.prems(1) cs] x by simp
  next
    case (Inr r)
    obtain s1 evs where r: "r = (s1, evs)" by (cases r)
    have "\<not> node_isActive (oracleNodes s1 a)"
      using oracle_step_inactive [of s e c s1 evs a] Inr r Cons.prems(1) c by simp
    from Cons.IH [OF this cs] show ?thesis using x Inr r by simp
  qed
qed

lemma oracle_step_not_registered:
  assumes "oracle_step s e c = Inr (s1, evs)"
    and "\<not> node_isActive (oracleNodes s a)"
    and "\<not> list_ex (is_OracleNodeAdded a) evs"
  shows "\<not> node_isActive (oracleNodes s1 a)"
proof -
  have "c \<noteq> AddOracleNode a nodeId" for nodeId
  proof
    assume "c = AddOracleNode a nodeId"
    with assms(1) have "evs = [OracleNodeAdded a nodeId]"
      by (auto simp add: addOracleNode_def split: if_splits)
    with assms(3) show False by simp
  qed
  with assms(1,2) show ?thesis by (rule oracle_step_inactive)
qed

lemma oracle_run_not_registered:
  assumes "\<not> node_isActive (oracleNodes s a)"
    and "\<not> registers s cs a"
  shows "\<not> node_isActive (oracleNodes (oracle_run s cs) a)"
  using assms
proof (induction cs arbitrary: s)
  case Nil
  then show ?case by simp
next
  case (Cons x cs)
  obtain e c where x: "x = (e, c)" by (cases x)
  show ?case
  proof (cases "oracle_step s e c")
    case (Inl err)
    with Cons.prems(2) x have "\<not> registers s cs a" by simp
    from Cons.IH [OF Cons.prems(1) this] show ?thesis using x Inl by simp
  next
    case (Inr r)
    obtain s1 evs where r: "r = (s1, evs)" by (cases r)
    from Cons.prems(2) x Inr r
    have n: "\<not> list_ex (is_OracleNodeAdded a) evs" and cs: "\<not> registers s1 cs a"
      by simp_all
    have "\<not> node_isActive (oracleNodes s1 a)"
      using oracle_step_not_registered [of s e c s1 evs a] Inr r Cons.prems(1) n by simp
    from Cons.IH [OF this cs] show ?thesis using x Inr r by simp
  qed
qed

lemma addOracleNode_iff:
  "(\<exists>s1 evs. addOracleNode s e a nodeId = Inr (s1, evs)) \<longleftrightarrow>
     msg_sender e = orc_owner s \<and> a \<noteq> 0 \<and> \<not> node_isActive (oracleNodes s a)"
  by (simp add: addOracleNode_def)

lemma addOracleNode_Inr:
  assumes "addOracleNode s e a nodeId = Inr (s1, evs)"
  shows "node_isActive (oracleNodes s1 a)" "node_reputation (oracleNodes s1 a) = 500"
  using assms [symmetric] by (simp_all add: addOracleNode_def split: if_splits)

lemma oracle_penalised_eq:
  "oracle_penalised =
     \<lparr>oracleNodes = (\<lambda>_. zero_OracleNode)
        (2 := \<lparr>node_nodeAddress = 2, node_isActive = False, node_reputation = 95,
               node_totalUpdates = 0, node_lastUpdate = 0, node_nodeId = ''main-oracle-node''\<rparr>,
         3 := \<lparr>node_nodeAddress = 3, node_isActive = True, node_reputation = 500,
               node_totalUpdates = 0, node_lastUpdate = 0, node_nodeId = ''second-node''\<rparr>),
      latestSensorData = (\<lambda>_. zero_SensorData),
      sensorHistory = (\<lambda>_. []),
      processedDataHashes = (\<lambda>_. False),
      activeOracles = [2, 3],
      parkingSystemContract = 0,
      orc_owner = 1,
      orc_paused = False\<rparr>"
  apply (simp add: oracle_penalised_def oracle_low_reputation_eq)
  apply (simp add: oracle_eval_defs)
  apply (simp add: fun_upd_twist)
  done

lemma oracle_registered_again_eq:
  "oracle_registered_again =
     \<lparr>oracleNodes = (\<lambda>_. zero_OracleNode)
        (2 := \<lparr>node_nodeAddress = 2, node_isActive = True, node_reputation = 500,
               node_totalUpdates = 0, node_lastUpdate = 0, node_nodeId = ''main-oracle-node''\<rparr>,
         3 := \<lparr>node_nodeAddress = 3, node_isActive = True, node_reputation = 500,
               node_totalUpdates = 0, node_lastUpdate = 0, node_nodeId = ''second-node''\<rparr>),
      latestSensorData = (\<lambda>_. zero_SensorData),
      sensorHistory = (\<lambda>_. []),
      processedDataHashes = (\<lambda>_. False),
      activeOracles = [2, 3, 2],
      parkingSystemContract = 0,
      orc_owner = 1,
      orc_paused = False\<rparr>"
  apply (simp add: oracle_registered_again_def oracle_penalised_eq)
  apply (simp add: oracle_eval_defs)
  apply (simp add: fun_upd_twist)
  done

text \<open>
  C5 as stated fails on its last clause. Node 2, at score 105, has a reading declined:
  the penalty leaves it at 95, below 100, and inactive, and its next reading reverts at
  the authorisation guard. The owner then calls \<^verbatim>\<open>addOracleNode\<close> for node 2, which only
  requires the node to be inactive: node 2 is active again, and the reading it submits
  afterwards is stored.
\<close>

theorem registered_again_counterexample:
  "updateSensorData oracle_low_reputation (call_by 2 2000) 1 True 101 ''camera'' 7 =
     Inr (oracle_penalised,
          [DataValidationFailed 2 1 validation_failed_reason, OracleNodeUpdated 2 False 95])
   \<and> node_reputation (oracleNodes oracle_penalised 2) = 95
   \<and> \<not> node_isActive (oracleNodes oracle_penalised 2)
   \<and> updateSensorData oracle_penalised (call_by 2 2100) 1 True 90 ''camera'' 7
       = Inl OracleNotAuthorized
   \<and> addOracleNode oracle_penalised (call_by 1 2300) 2 ''main-oracle-node'' =
       Inr (oracle_registered_again, [OracleNodeAdded 2 ''main-oracle-node''])
   \<and> msg_sender (call_by 2 2400) = 2
   \<and> (\<exists>s1. updateSensorData oracle_registered_again (call_by 2 2400) 1 True 90 ''camera'' 7 =
         Inr (s1, [SensorDataUpdated 1 True 90 2 ''camera''])
       \<and> latestSensorData s1 1 =
           \<lparr>data_spotId = 1, data_isOccupied = True, data_confidence = 90,
            data_timestamp = 2400, data_sensorType = ''camera'', data_dataHash = 7\<rparr>)"
proof -
  have 1: "updateSensorData oracle_low_reputation (call_by 2 2000) 1 True 101 ''camera'' 7 =
     Inr (oracle_penalised,
          [DataValidationFailed 2 1 validation_failed_reason, OracleNodeUpdated 2 False 95])"
    unfolding oracle_penalised_eq unfolding oracle_low_reputation_eq
    by (simp add: oracle_eval_defs fun_upd_twist)
  have 2: "node_reputation (oracleNodes oracle_penalised 2) = 95"
    "\<not> node_isActive (oracleNodes oracle_penalised 2)"
    "msg_sender (call_by 2 2400) = 2"
    by (simp_all add: oracle_penalised_eq call_by_def)
  have 3: "updateSensorData oracle_penalised (call_by 2 2100) 1 True 90 ''camera'' 7
       = Inl OracleNotAuthorized"
    unfolding oracle_penalised_eq by (simp add: oracle_eval_defs)
  have 4: "addOracleNode oracle_penalised (call_by 1 2300) 2 ''main-oracle-node'' =
       Inr (oracle_registered_again, [OracleNodeAdded 2 ''main-oracle-node''])"
    unfolding oracle_registered_again_eq unfolding oracle_penalised_eq
    by (simp add: oracle_eval_defs fun_upd_twist)
  have 5: "\<exists>s1. updateSensorData oracle_registered_again (call_by 2 2400) 1 True 90 ''camera'' 7 =
         Inr (s1, [SensorDataUpdated 1 True 90 2 ''camera''])
       \<and> latestSensorData s1 1 =
           \<lparr>data_spotId = 1, data_isOccupied = True, data_confidence = 90,
            data_timestamp = 2400, data_sensorType = ''camera'', data_dataHash = 7\<rparr>"
    unfolding oracle_registered_again_eq by (simp add: oracle_eval_defs)
  from 1 2 3 4 5 show ?thesis by blast
qed

text \<open>
  C5, amended. From a state in which every score is at most 1000, any sequence of
  rewards, penalties and owner overrides, and any run of transactions, leaves every score
  at most 1000, and a score is a natural number; the state the constructor leaves is such
  a state, so this holds of every state a run of the contract reaches. A
  reward adds 1 and stops at 1000; a penalty takes 10 when the score is above 10 and
  otherwise leaves it, so it never brings a positive score to 0. A penalty that leaves
  the score below 100 leaves the node inactive. From then on, through any further such
  sequence and any run of transactions in which no \<^verbatim>\<open>addOracleNode\<close> for that node
  succeeds, every \<^verbatim>\<open>updateSensorData\<close> call by that node reverts at the authorisation
  guard. \<^verbatim>\<open>addOracleNode\<close> succeeds exactly when the owner calls it for a non-zero address
  whose node is inactive, and it leaves the node active with score 500.
\<close>

theorem reputation_bounds_and_deactivation:
  assumes "reputation_bounded s"
  shows "reputation_bounded (reputation_run s xs)
       \<and> reputation_bounded (oracle_run s ds)
       \<and> reputation_bounded (oracle_run (oracle_constructor e0 p) ds)
       \<and> node_reputation (oracleNodes (rewardOracle s a) a)
           = min 1000 (node_reputation (oracleNodes s a) + 1)
       \<and> node_reputation (oracleNodes (fst (penalizeOracle s a)) a)
           = (if node_reputation (oracleNodes s a) > 10 then node_reputation (oracleNodes s a) - 10
              else node_reputation (oracleNodes s a))
       \<and> (node_reputation (oracleNodes s a) > 0 \<longrightarrow>
            node_reputation (oracleNodes (fst (penalizeOracle s a)) a) > 0)
       \<and> (node_reputation (oracleNodes (fst (penalizeOracle s a)) a) < 100 \<longrightarrow>
            \<not> node_isActive (oracleNodes (fst (penalizeOracle s a)) a)
          \<and> (msg_sender e = a
               \<and> \<not> registers (reputation_run (fst (penalizeOracle s a)) ys) cs a \<longrightarrow>
               updateSensorData (oracle_run (reputation_run (fst (penalizeOracle s a)) ys) cs) e
                   spot occupied conf sensorType h
                 = Inl OracleNotAuthorized))
       \<and> ((\<exists>s1 evs. addOracleNode t e1 a nodeId = Inr (s1, evs)) \<longleftrightarrow>
            msg_sender e1 = orc_owner t \<and> a \<noteq> 0 \<and> \<not> node_isActive (oracleNodes t a))
       \<and> (\<forall>s1 evs. addOracleNode t e1 a nodeId = Inr (s1, evs) \<longrightarrow>
            node_isActive (oracleNodes s1 a) \<and> node_reputation (oracleNodes s1 a) = 500)"
proof -
  have 1: "reputation_bounded (reputation_run s xs)"
    using assms by (rule reputation_run_bounded)
  have 7: "reputation_bounded (oracle_run s ds)"
    using assms by (rule oracle_run_reputation_bounded)
  have 8: "reputation_bounded (oracle_run (oracle_constructor e0 p) ds)"
    using oracle_constructor_reputation_bounded by (rule oracle_run_reputation_bounded)
  have 2: "node_reputation (oracleNodes (rewardOracle s a) a)
             = min 1000 (node_reputation (oracleNodes s a) + 1)"
    using assms
    by (auto simp add: rewardOracle_reputation reputation_bounded_def min_def dest: spec [of _ a])
  have 3: "node_reputation (oracleNodes (fst (penalizeOracle s a)) a) < 100 \<Longrightarrow>
      \<not> node_isActive (oracleNodes (fst (penalizeOracle s a)) a)"
    by (simp add: penalizeOracle_isActive)
  have 4: "node_reputation (oracleNodes (fst (penalizeOracle s a)) a) < 100 \<Longrightarrow> msg_sender e = a \<Longrightarrow>
      \<not> registers (reputation_run (fst (penalizeOracle s a)) ys) cs a \<Longrightarrow>
      updateSensorData (oracle_run (reputation_run (fst (penalizeOracle s a)) ys) cs) e
          spot occupied conf sensorType h
        = Inl OracleNotAuthorized"
    by (rule updateSensorData_inactive)
       (simp add: oracle_run_not_registered reputation_run_inactive 3)
  have 5: "(\<exists>s1 evs. addOracleNode t e1 a nodeId = Inr (s1, evs)) \<longleftrightarrow>
            msg_sender e1 = orc_owner t \<and> a \<noteq> 0 \<and> \<not> node_isActive (oracleNodes t a)"
    by (rule addOracleNode_iff)
  have 6: "\<forall>s1 evs. addOracleNode t e1 a nodeId = Inr (s1, evs) \<longrightarrow>
            node_isActive (oracleNodes s1 a) \<and> node_reputation (oracleNodes s1 a) = 500"
    using addOracleNode_Inr by blast
  show ?thesis
    using 1 7 8 2 3 4 5 6 by (simp add: penalizeOracle_reputation)
qed

theorem reputation_bounds_and_deactivation_witness:
  "reputation_bounded oracle_low_reputation
   \<and> reputation_bounded (reputation_run oracle_low_reputation
        [Reward 3, Penalize 3, Override (call_by 1 1600) 3 1000, Reward 3])
   \<and> reputation_bounded (oracle_run oracle_low_reputation
        [(call_by 2 2000, UpdateSensorData 1 True 101 ''camera'' 7)])
   \<and> node_reputation (oracleNodes (rewardOracle oracle_low_reputation 2) 2) = 106
   \<and> node_reputation (oracleNodes oracle_low_reputation 2) > 0
   \<and> node_reputation (oracleNodes (fst (penalizeOracle oracle_low_reputation 2)) 2) = 95
   \<and> (95::nat) < 100
   \<and> \<not> node_isActive (oracleNodes (fst (penalizeOracle oracle_low_reputation 2)) 2)
   \<and> msg_sender (call_by 2 2000) = 2
   \<and> \<not> registers
        (reputation_run (fst (penalizeOracle oracle_low_reputation 2))
           [Reward 2, Override (call_by 1 1700) 2 900])
        [(call_by 5 1800, AddOracleNode 2 ''main-oracle-node''),
         (call_by 1 1850, UpdateOracleReputation 2 950)] 2
   \<and> updateSensorData
        (oracle_run
           (reputation_run (fst (penalizeOracle oracle_low_reputation 2))
              [Reward 2, Override (call_by 1 1700) 2 900])
           [(call_by 5 1800, AddOracleNode 2 ''main-oracle-node''),
            (call_by 1 1850, UpdateOracleReputation 2 950)])
        (call_by 2 2000) 1 True 90 ''camera'' 7
      = Inl OracleNotAuthorized
   \<and> addOracleNode oracle_penalised (call_by 1 2300) 2 ''main-oracle-node''
       = Inr (oracle_registered_again, [OracleNodeAdded 2 ''main-oracle-node''])
   \<and> node_isActive (oracleNodes oracle_registered_again 2)
   \<and> node_reputation (oracleNodes oracle_registered_again 2) = 500"
proof -
  have b: "reputation_bounded oracle_low_reputation"
    by (simp add: oracle_low_reputation_eq reputation_bounded_def zero_OracleNode_def)
  have v: "node_reputation (oracleNodes oracle_low_reputation 2) = 105"
    "msg_sender (call_by 2 2000) = 2"
    by (simp_all add: oracle_low_reputation_eq call_by_def)
  have n: "\<not> registers
        (reputation_run (fst (penalizeOracle oracle_low_reputation 2))
           [Reward 2, Override (call_by 1 1700) 2 900])
        [(call_by 5 1800, AddOracleNode 2 ''main-oracle-node''),
         (call_by 1 1850, UpdateOracleReputation 2 950)] 2"
    unfolding oracle_low_reputation_eq by (simp add: oracle_eval_defs)
  have r: "addOracleNode oracle_penalised (call_by 1 2300) 2 ''main-oracle-node''
       = Inr (oracle_registered_again, [OracleNodeAdded 2 ''main-oracle-node''])"
    unfolding oracle_registered_again_eq unfolding oracle_penalised_eq
    by (simp add: oracle_eval_defs fun_upd_twist)
  from reputation_bounds_and_deactivation [OF b,
      where xs = "[Reward 3, Penalize 3, Override (call_by 1 1600) 3 1000, Reward 3]"
        and ds = "[(call_by 2 2000, UpdateSensorData 1 True 101 ''camera'' 7)]"
        and a = 2 and e = "call_by 2 2000"
        and ys = "[Reward 2, Override (call_by 1 1700) 2 900]"
        and cs = "[(call_by 5 1800, AddOracleNode 2 ''main-oracle-node''),
                   (call_by 1 1850, UpdateOracleReputation 2 950)]"
        and spot = 1 and occupied = True and conf = 90 and sensorType = "''camera''" and h = 7
        and t = oracle_penalised and ?e1.0 = "call_by 1 2300" and nodeId = "''main-oracle-node''"]
    b v n r
  show ?thesis by simp
qed

subsection \<open>Replay protection\<close>

text \<open>
  C6 as stated fails on the error: node 2 submits, ten seconds after its accepted reading
  of spot 1 and so inside the cooldown, the same payload with the same hash 7. The hash
  is in the processed set, and the call reverts at the cooldown guard, which comes first.
\<close>

theorem replay_within_cooldown_counterexample:
  "processedDataHashes oracle_one_reading 7
   \<and> updateSensorData oracle_one_reading (call_by 2 2010) 1 True 90 ''camera'' 7
        = Inl CooldownNotElapsed
   \<and> CooldownNotElapsed \<noteq> DataAlreadyProcessed"
  unfolding oracle_one_reading_eq
  by (simp add: oracle_eval_defs)

lemma updateSensorData_processed_error:
  assumes "processedDataHashes s h"
  shows "updateSensorData s e spot occupied conf sensorType h =
    Inl (if \<not> node_isActive (oracleNodes s (msg_sender e)) then OracleNotAuthorized
         else if orc_paused s then EnforcedPause
         else if \<not> spot > 0 then InvalidSpotId
         else if overflow (data_timestamp (latestSensorData s spot) + UPDATE_COOLDOWN) then Panic
         else if \<not> block_timestamp e \<ge> data_timestamp (latestSensorData s spot) + UPDATE_COOLDOWN
           then CooldownNotElapsed
         else if \<not> conf \<ge> MIN_CONFIDENCE then InsufficientConfidence
         else DataAlreadyProcessed)"
  using assms by (simp add: updateSensorData_def)

text \<open>
  C6, amended. In every run, from any state, no content hash is accepted twice, whoever
  submits it and for whichever spot, and no accepted hash was in the processed set
  before. Once a hash is in the processed set it stays there, and every later submission
  carrying it reverts. The error is that of the first guard that fails, in the order of
  the code: the caller is not an active node; the contract is paused; the spot id is 0;
  the time of the spot's latest reading plus the cooldown does not fit in 256 bits (a
  panic); the cooldown has not elapsed; the confidence is below 70; and, when the call
  passes all of these, the hash is already processed.
\<close>

theorem replay_protection:
  "distinct (accepted_hashes s cs)
   \<and> (processedDataHashes s h \<longrightarrow>
        h \<notin> set (accepted_hashes s cs)
      \<and> processedDataHashes (oracle_run s cs) h
      \<and> updateSensorData s e spot occupied conf sensorType h =
          Inl (if \<not> node_isActive (oracleNodes s (msg_sender e)) then OracleNotAuthorized
               else if orc_paused s then EnforcedPause
               else if spot = 0 then InvalidSpotId
               else if MAX_UINT256 < data_timestamp (latestSensorData s spot) + UPDATE_COOLDOWN
                 then Panic
               else if block_timestamp e < data_timestamp (latestSensorData s spot) + UPDATE_COOLDOWN
                 then CooldownNotElapsed
               else if conf < MIN_CONFIDENCE then InsufficientConfidence
               else DataAlreadyProcessed)
      \<and> (node_isActive (oracleNodes s (msg_sender e)) \<and> \<not> orc_paused s \<and> spot > 0
           \<and> block_timestamp e \<le> MAX_UINT256
           \<and> block_timestamp e \<ge> data_timestamp (latestSensorData s spot) + UPDATE_COOLDOWN
           \<and> conf \<ge> MIN_CONFIDENCE \<longrightarrow>
           updateSensorData s e spot occupied conf sensorType h = Inl DataAlreadyProcessed))"
proof -
  have 1: "processedDataHashes s h \<Longrightarrow> node_isActive (oracleNodes s (msg_sender e)) \<Longrightarrow>
     \<not> orc_paused s \<Longrightarrow> spot > 0 \<Longrightarrow> block_timestamp e \<le> MAX_UINT256 \<Longrightarrow>
     block_timestamp e \<ge> data_timestamp (latestSensorData s spot) + UPDATE_COOLDOWN \<Longrightarrow>
     conf \<ge> MIN_CONFIDENCE \<Longrightarrow>
     updateSensorData s e spot occupied conf sensorType h = Inl DataAlreadyProcessed"
    by (rule updateSensorData_processed_replay) (simp_all add: overflow_def)
  have 2: "processedDataHashes s h \<Longrightarrow>
     updateSensorData s e spot occupied conf sensorType h =
          Inl (if \<not> node_isActive (oracleNodes s (msg_sender e)) then OracleNotAuthorized
               else if orc_paused s then EnforcedPause
               else if spot = 0 then InvalidSpotId
               else if MAX_UINT256 < data_timestamp (latestSensorData s spot) + UPDATE_COOLDOWN
                 then Panic
               else if block_timestamp e < data_timestamp (latestSensorData s spot) + UPDATE_COOLDOWN
                 then CooldownNotElapsed
               else if conf < MIN_CONFIDENCE then InsufficientConfidence
               else DataAlreadyProcessed)"
    by (subst updateSensorData_processed_error, assumption)
       (simp only: overflow_def not_le not_gr_zero)
  show ?thesis
    using 1 2 accepted_hashes_distinct [of s cs] accepted_hashes_fresh [of h s cs]
      oracle_run_processed_mono [of s h cs]
    by blast
qed

theorem replay_protection_witness:
  "processedDataHashes oracle_one_reading 7
   \<and> node_isActive (oracleNodes oracle_one_reading (msg_sender (call_by 3 2100)))
   \<and> \<not> orc_paused oracle_one_reading
   \<and> (2::nat) > 0
   \<and> block_timestamp (call_by 3 2100) \<le> MAX_UINT256
   \<and> block_timestamp (call_by 3 2100)
        \<ge> data_timestamp (latestSensorData oracle_one_reading 2) + UPDATE_COOLDOWN
   \<and> (90::nat) \<ge> MIN_CONFIDENCE
   \<and> updateSensorData oracle_one_reading (call_by 3 2100) 2 False 90 ''magnetic'' 7
        = Inl DataAlreadyProcessed
   \<and> 7 \<notin> set (accepted_hashes oracle_one_reading
                  [(call_by 3 2100, UpdateSensorData 2 False 90 ''magnetic'' 7),
                   (call_by 3 2200, UpdateSensorData 2 False 90 ''magnetic'' 8)])
   \<and> processedDataHashes (oracle_run oracle_one_reading
                  [(call_by 3 2100, UpdateSensorData 2 False 90 ''magnetic'' 7),
                   (call_by 3 2200, UpdateSensorData 2 False 90 ''magnetic'' 8)]) 7
   \<and> \<not> node_isActive (oracleNodes oracle_one_reading (msg_sender (call_by 4 2100)))
   \<and> updateSensorData oracle_one_reading (call_by 4 2100) 2 False 90 ''magnetic'' 7
        = Inl OracleNotAuthorized
   \<and> updateSensorData oracle_one_reading (call_by 3 2100) 2 False 60 ''magnetic'' 7
        = Inl InsufficientConfidence"
proof -
  have h: "processedDataHashes oracle_one_reading 7"
    "node_isActive (oracleNodes oracle_one_reading (msg_sender (call_by 3 2100)))"
    "\<not> orc_paused oracle_one_reading"
    "(2::nat) > 0"
    "block_timestamp (call_by 3 2100) \<le> MAX_UINT256"
    "block_timestamp (call_by 3 2100)
        \<ge> data_timestamp (latestSensorData oracle_one_reading 2) + UPDATE_COOLDOWN"
    "(90::nat) \<ge> MIN_CONFIDENCE"
    by (simp_all add: oracle_one_reading_eq call_by_def MAX_UINT256_def UPDATE_COOLDOWN_def
        MIN_CONFIDENCE_def zero_SensorData_def)
  have k: "\<not> node_isActive (oracleNodes oracle_one_reading (msg_sender (call_by 4 2100)))"
    "\<not> MAX_UINT256 < data_timestamp (latestSensorData oracle_one_reading 2) + UPDATE_COOLDOWN"
    "\<not> block_timestamp (call_by 3 2100)
        < data_timestamp (latestSensorData oracle_one_reading 2) + UPDATE_COOLDOWN"
    "(60::nat) < MIN_CONFIDENCE"
    by (simp_all add: oracle_one_reading_eq call_by_def MAX_UINT256_def UPDATE_COOLDOWN_def
        MIN_CONFIDENCE_def zero_SensorData_def zero_OracleNode_def)
  from replay_protection [where s = oracle_one_reading and h = 7 and e = "call_by 3 2100"
      and spot = 2 and occupied = False and conf = 90 and sensorType = "''magnetic''"
      and cs = "[(call_by 3 2100, UpdateSensorData 2 False 90 ''magnetic'' 7),
                 (call_by 3 2200, UpdateSensorData 2 False 90 ''magnetic'' 8)]"] h
  have a: "updateSensorData oracle_one_reading (call_by 3 2100) 2 False 90 ''magnetic'' 7
        = Inl DataAlreadyProcessed
   \<and> 7 \<notin> set (accepted_hashes oracle_one_reading
                  [(call_by 3 2100, UpdateSensorData 2 False 90 ''magnetic'' 7),
                   (call_by 3 2200, UpdateSensorData 2 False 90 ''magnetic'' 8)])
   \<and> processedDataHashes (oracle_run oracle_one_reading
                  [(call_by 3 2100, UpdateSensorData 2 False 90 ''magnetic'' 7),
                   (call_by 3 2200, UpdateSensorData 2 False 90 ''magnetic'' 8)]) 7"
    by blast
  from replay_protection [where s = oracle_one_reading and h = 7 and e = "call_by 4 2100"
      and spot = 2 and occupied = False and conf = 90 and sensorType = "''magnetic''"
      and cs = "[]"] h(1) k(1)
  have b: "updateSensorData oracle_one_reading (call_by 4 2100) 2 False 90 ''magnetic'' 7
        = Inl OracleNotAuthorized"
    by simp
  from replay_protection [where s = oracle_one_reading and h = 7 and e = "call_by 3 2100"
      and spot = 2 and occupied = False and conf = 60 and sensorType = "''magnetic''"
      and cs = "[]"] h k
  have c: "updateSensorData oracle_one_reading (call_by 3 2100) 2 False 60 ''magnetic'' 7
        = Inl InsufficientConfidence"
    by simp
  from h k(1) a b c show ?thesis by blast
qed

subsection \<open>A history that is full\<close>

lemma updateSensorData_accept:
  assumes "node_isActive (oracleNodes s (msg_sender e))" "\<not> orc_paused s" "spot > 0"
    "\<not> overflow (data_timestamp (latestSensorData s spot) + UPDATE_COOLDOWN)"
    "block_timestamp e \<ge> data_timestamp (latestSensorData s spot) + UPDATE_COOLDOWN"
    "conf \<ge> MIN_CONFIDENCE" "\<not> processedDataHashes s h" "length sensorType > 0"
    "validateSensorData s e spot occupied conf sensorType = Inr True"
    "\<not> overflow (node_totalUpdates (oracleNodes s (msg_sender e)) + 1)"
  shows "updateSensorData s e spot occupied conf sensorType h =
     Inr (rewardOracle
            (s\<lparr>latestSensorData := (latestSensorData s)(spot :=
                   \<lparr>data_spotId = spot, data_isOccupied = occupied, data_confidence = conf,
                    data_timestamp = block_timestamp e, data_sensorType = sensorType,
                    data_dataHash = h\<rparr>),
                processedDataHashes := (processedDataHashes s)(h := True),
                sensorHistory := (sensorHistory s)(spot := append_history (sensorHistory s spot)
                   \<lparr>data_spotId = spot, data_isOccupied = occupied, data_confidence = conf,
                    data_timestamp = block_timestamp e, data_sensorType = sensorType,
                    data_dataHash = h\<rparr>),
                oracleNodes := (oracleNodes s)(msg_sender e := (oracleNodes s (msg_sender e))
                   \<lparr>node_totalUpdates := node_totalUpdates (oracleNodes s (msg_sender e)) + 1,
                    node_lastUpdate := block_timestamp e\<rparr>)\<rparr>)
            (msg_sender e),
          [SensorDataUpdated spot occupied conf (msg_sender e) sensorType])"
  using assms by (simp add: updateSensorData_def Let_def notifyParkingSystem_def)

lemma oracle_run_snoc:
  "oracle_run s (cs @ [x]) = oracle_run (oracle_run s cs) [x]"
  by (induction cs arbitrary: s) (auto split: sum.splits)

lemma of_nat_hash_neq:
  assumes "i < n" "n \<le> 100"
  shows "(of_nat n :: bytes32) \<noteq> of_nat i"
proof -
  have "(100::nat) < 2 ^ 256" by simp
  then have "n < 2 ^ 256" "i < 2 ^ 256" using assms by linarith+
  then show ?thesis
    using assms(1) by (simp add: word_of_nat_eq_iff take_bit_nat_eq_self)
qed

lemma readings_state_step:
  assumes st: "readings_state n s" and n: "n < 100"
  shows "readings_state (Suc n) (oracle_run s [reading_call n])"
    and "updateSensorData s (call_by 2 (2000 + 30 * n)) 1 True 90 ''camera'' (of_nat n) =
      Inr (oracle_run s [reading_call n], [SensorDataUpdated 1 True 90 2 ''camera''])"
proof -
  define e where "e = call_by 2 (2000 + 30 * n)"
  have e: "msg_sender e = 2" "block_timestamp e = 2000 + 30 * n"
    by (simp_all add: e_def call_by_def)
  from st have a: "node_isActive (oracleNodes s 2)" "\<not> orc_paused s"
    "node_totalUpdates (oracleNodes s 2) = n"
    "node_reputation (oracleNodes s 2) = 500 + n"
    "latestSensorData s 1 = (if n = 0 then zero_SensorData else stored_reading (n - 1))"
    "sensorHistory s 1 = map stored_reading [0..<n]"
    "\<And>h. processedDataHashes s h \<Longrightarrow> \<exists>i<n. h = of_nat i"
    by (simp_all add: readings_state_def)
  have big: "(6000::nat) \<le> MAX_UINT256"
    by (simp add: MAX_UINT256_def)
  have ts: "data_timestamp (latestSensorData s 1) + UPDATE_COOLDOWN \<le> 2000 + 30 * n"
    using a(5) by (cases n) (simp_all add: zero_SensorData_def stored_reading_def UPDATE_COOLDOWN_def)
  have g4: "\<not> overflow (data_timestamp (latestSensorData s 1) + UPDATE_COOLDOWN)"
    using ts n big by (simp add: overflow_def)
  have fresh: "\<not> processedDataHashes s (of_nat n)"
  proof
    assume "processedDataHashes s (of_nat n)"
    then obtain i where "i < n" "(of_nat n :: bytes32) = of_nat i" using a(7) by blast
    then show False using of_nat_hash_neq [of i n] n by simp
  qed
  have val: "validateSensorData s e 1 True 90 ''camera'' = Inr True"
    using ts a(5)
    by (cases n)
       (simp_all add: validateSensorData_def e zero_SensorData_def stored_reading_def
          MIN_CONFIDENCE_def UPDATE_COOLDOWN_def underflow_def)
  have g10: "\<not> overflow (node_totalUpdates (oracleNodes s (msg_sender e)) + 1)"
    using n big a(3) by (simp add: overflow_def e)
  note acc = updateSensorData_accept [of s e 1 90 "of_nat n" "''camera''" True,
      unfolded e, OF a(1) a(2) _ g4 ts _ fresh _ val [unfolded e] g10 [unfolded e]]
  have upd: "updateSensorData s e 1 True 90 ''camera'' (of_nat n) =
     Inr (rewardOracle
            (s\<lparr>latestSensorData := (latestSensorData s)(1 := stored_reading n),
                processedDataHashes := (processedDataHashes s)(of_nat n := True),
                sensorHistory := (sensorHistory s)(1 := map stored_reading [0..<Suc n]),
                oracleNodes := (oracleNodes s)(2 := (oracleNodes s 2)
                   \<lparr>node_totalUpdates := Suc n, node_lastUpdate := 2000 + 30 * n\<rparr>)\<rparr>) 2,
          [SensorDataUpdated 1 True 90 2 ''camera''])"
    using acc n a(3) a(6)
    by (simp add: MIN_CONFIDENCE_def append_history_below MAX_HISTORY_SIZE_def
        stored_reading_def e)
  have run: "oracle_run s [reading_call n] =
     rewardOracle
            (s\<lparr>latestSensorData := (latestSensorData s)(1 := stored_reading n),
                processedDataHashes := (processedDataHashes s)(of_nat n := True),
                sensorHistory := (sensorHistory s)(1 := map stored_reading [0..<Suc n]),
                oracleNodes := (oracleNodes s)(2 := (oracleNodes s 2)
                   \<lparr>node_totalUpdates := Suc n, node_lastUpdate := 2000 + 30 * n\<rparr>)\<rparr>) 2"
    using upd by (simp add: reading_call_def e_def)
  show "updateSensorData s (call_by 2 (2000 + 30 * n)) 1 True 90 ''camera'' (of_nat n) =
      Inr (oracle_run s [reading_call n], [SensorDataUpdated 1 True 90 2 ''camera''])"
    using upd unfolding run e_def .
  show "readings_state (Suc n) (oracle_run s [reading_call n])"
    unfolding run readings_state_def
    using a(1,2,4,7) n
    by (auto simp add: rewardOracle_isActive rewardOracle_reputation rewardOracle_keeps
        rewardOracle_def less_Suc_eq)
qed

lemma oracle_readings_Suc:
  "oracle_readings (Suc n) = oracle_run (oracle_readings n) [reading_call n]"
  by (simp add: oracle_readings_def oracle_run_snoc)

lemma readings_state_0: "readings_state 0 (oracle_readings 0)"
  by (simp add: oracle_readings_def oracle_deployed_eq readings_state_def)

lemma readings_state_oracle_readings:
  "n \<le> 100 \<Longrightarrow> readings_state n (oracle_readings n)"
proof (induction n)
  case 0
  show ?case by (rule readings_state_0)
next
  case (Suc n)
  then have "readings_state n (oracle_readings n)" "n < 100" by simp_all
  then show ?case
    unfolding oracle_readings_Suc by (rule readings_state_step(1))
qed

lemma oracle_history_overrun_eval:
  "updateSensorData oracle_history_full (call_by 2 5000) 1 True 90 ''camera'' 100 =
     Inr (oracle_history_overrun, [SensorDataUpdated 1 True 90 2 ''camera''])"
  "latestSensorData oracle_history_overrun 1 = stored_reading 100"
  "sensorHistory oracle_history_overrun 1 =
     (sensorHistory oracle_history_full 1)[0 := sensorHistory oracle_history_full 1 ! 1]"
  "sensorHistory oracle_history_full 1 = map stored_reading [0..<100]"
proof -
  define s where "s = oracle_history_full"
  define e where "e = call_by 2 5000"
  have e: "msg_sender e = 2" "block_timestamp e = 5000"
    by (simp_all add: e_def call_by_def)
  have "readings_state 100 s"
    unfolding s_def oracle_history_full_def by (rule readings_state_oracle_readings) simp
  then have a: "node_isActive (oracleNodes s 2)" "\<not> orc_paused s"
    "node_totalUpdates (oracleNodes s 2) = 100"
    "latestSensorData s 1 = stored_reading 99"
    "sensorHistory s 1 = map stored_reading [0..<100]"
    "\<And>h. processedDataHashes s h \<Longrightarrow> \<exists>i<100. h = of_nat i"
    by (simp_all add: readings_state_def)
  show "sensorHistory oracle_history_full 1 = map stored_reading [0..<100]"
    using a(5) by (simp add: s_def)
  have big: "(6000::nat) \<le> MAX_UINT256"
    by (simp add: MAX_UINT256_def)
  have ts: "data_timestamp (latestSensorData s 1) + UPDATE_COOLDOWN \<le> 5000"
    using a(4) by (simp add: stored_reading_def UPDATE_COOLDOWN_def)
  have g4: "\<not> overflow (data_timestamp (latestSensorData s 1) + UPDATE_COOLDOWN)"
    using ts big by (simp add: overflow_def)
  have fresh: "\<not> processedDataHashes s 100"
  proof
    assume "processedDataHashes s 100"
    then obtain i where "i < 100" "(100 :: bytes32) = of_nat i" using a(6) by blast
    then show False using of_nat_hash_neq [of i 100] by simp
  qed
  have val: "validateSensorData s e 1 True 90 ''camera'' = Inr True"
    using ts a(4)
    by (simp add: validateSensorData_def e stored_reading_def
          MIN_CONFIDENCE_def UPDATE_COOLDOWN_def underflow_def)
  have g10: "\<not> overflow (node_totalUpdates (oracleNodes s (msg_sender e)) + 1)"
    using big a(3) by (simp add: overflow_def e)
  have len: "length (sensorHistory s 1) = MAX_HISTORY_SIZE"
    using a(5) by (simp add: MAX_HISTORY_SIZE_def)
  note acc = updateSensorData_accept [of s e 1 90 100 "''camera''" True,
      unfolded e, OF a(1) a(2) _ g4 ts _ fresh _ val [unfolded e] g10 [unfolded e]]
  have upd: "updateSensorData s e 1 True 90 ''camera'' 100 =
     Inr (rewardOracle
            (s\<lparr>latestSensorData := (latestSensorData s)(1 := stored_reading 100),
                processedDataHashes := (processedDataHashes s)(100 := True),
                sensorHistory := (sensorHistory s)(1 := (sensorHistory s 1)[0 := sensorHistory s 1 ! 1]),
                oracleNodes := (oracleNodes s)(2 := (oracleNodes s 2)
                   \<lparr>node_totalUpdates := 101, node_lastUpdate := 5000\<rparr>)\<rparr>) 2,
          [SensorDataUpdated 1 True 90 2 ''camera''])"
    using acc a(3) append_history_full [OF len]
    by (simp add: MIN_CONFIDENCE_def stored_reading_def e)
  have run: "oracle_history_overrun =
     rewardOracle
            (s\<lparr>latestSensorData := (latestSensorData s)(1 := stored_reading 100),
                processedDataHashes := (processedDataHashes s)(100 := True),
                sensorHistory := (sensorHistory s)(1 := (sensorHistory s 1)[0 := sensorHistory s 1 ! 1]),
                oracleNodes := (oracleNodes s)(2 := (oracleNodes s 2)
                   \<lparr>node_totalUpdates := 101, node_lastUpdate := 5000\<rparr>)\<rparr>) 2"
    using upd by (simp add: oracle_history_overrun_def reading_call_def e_def s_def)
  show "updateSensorData oracle_history_full (call_by 2 5000) 1 True 90 ''camera'' 100 =
     Inr (oracle_history_overrun, [SensorDataUpdated 1 True 90 2 ''camera''])"
    using upd unfolding run e_def s_def .
  show "latestSensorData oracle_history_overrun 1 = stored_reading 100"
    unfolding run by (simp add: rewardOracle_keeps)
  show "sensorHistory oracle_history_overrun 1 =
     (sensorHistory oracle_history_full 1)[0 := sensorHistory oracle_history_full 1 ! 1]"
    unfolding run by (simp add: rewardOracle_keeps s_def)
qed

lemma stored_reading_inj: "stored_reading i = stored_reading j \<longleftrightarrow> i = j"
  by (auto simp add: stored_reading_def)

text \<open>
  C9 fails on the code. Spot 1 holds the hundred readings 0 to 99 when node 2 submits
  reading 100, which is accepted and becomes the latest reading. The loop copies slot 1
  over slot 0 and the \<^verbatim>\<open>pop\<close> removes the slot just pushed: the history keeps 100
  entries, reading 1 twice at its front and reading 99 at its end, and the accepted
  reading is not in it.
\<close>

theorem full_history_drops_new_reading:
  "length (sensorHistory oracle_history_full 1) = MAX_HISTORY_SIZE
   \<and> updateSensorData oracle_history_full (call_by 2 5000) 1 True 90 ''camera'' 100 =
       Inr (oracle_history_overrun, [SensorDataUpdated 1 True 90 2 ''camera''])
   \<and> latestSensorData oracle_history_overrun 1 = stored_reading 100
   \<and> sensorHistory oracle_history_overrun 1 =
       (sensorHistory oracle_history_full 1)[0 := sensorHistory oracle_history_full 1 ! 1]
   \<and> length (sensorHistory oracle_history_overrun 1) = MAX_HISTORY_SIZE
   \<and> sensorHistory oracle_history_overrun 1 ! 0 = stored_reading 1
   \<and> sensorHistory oracle_history_overrun 1 ! 1 = stored_reading 1
   \<and> last (sensorHistory oracle_history_overrun 1) = stored_reading 99
   \<and> stored_reading 100 \<notin> set (sensorHistory oracle_history_overrun 1)"
proof -
  note ev = oracle_history_overrun_eval
  have h: "sensorHistory oracle_history_overrun 1 = (map stored_reading [0..<100])[0 := stored_reading 1]"
    unfolding ev(3) ev(4) by simp
  have "set ((map stored_reading [0..<100])[0 := stored_reading 1])
          \<subseteq> insert (stored_reading 1) (set (map stored_reading [0..<100]))"
    by (rule set_update_subset_insert)
  then have notin: "stored_reading 100 \<notin> set ((map stored_reading [0..<100])[0 := stored_reading 1])"
    by (auto simp add: stored_reading_inj)
  have l: "last ((map stored_reading [0..<100])[0 := stored_reading 1]) = stored_reading 99"
    by (simp add: last_conv_nth)
  show ?thesis
    using ev(1,2) notin l
    unfolding h ev(4) by (simp add: MAX_HISTORY_SIZE_def)
qed

section \<open>Verification of ParkingSystem\<close>

subsection \<open>What a returning call did\<close>

lemma createParkingSpot_Inr:
  assumes ok: "createParkingSpot s e location hourlyRate = Inr (s1, effs)"
  shows "s1 = s\<lparr>nextSpotId := nextSpotId s + 1,
                  parkingSpots := (parkingSpots s)(nextSpotId s :=
                    \<lparr>spot_spotId = nextSpotId s, spot_location = location, spot_hourlyRate = hourlyRate,
                     spot_isActive = True, spot_isOccupied = False, spot_currentUser = 0,
                     spot_reservationEnd = 0, spot_totalEarnings = 0, spot_totalOccupations = 0\<rparr>),
                  spotExists := (spotExists s)(nextSpotId s := True)\<rparr>"
  using ok [symmetric] by (simp_all add: createParkingSpot_def Let_def split: if_splits)

lemma reserveSpot_Inr_guards:
  assumes "reserveSpot s e spotId startTime endTime v = Inr x"
  shows "\<not> sys_paused s" "spotExists s spotId"
    "spot_isActive (parkingSpots s spotId)" "\<not> spot_isOccupied (parkingSpots s spotId)"
    "startTime \<ge> block_timestamp e" "endTime > startTime"
    "endTime - startTime \<ge> MIN_RESERVATION_TIME" "endTime - startTime \<le> MAX_RESERVATION_TIME"
    "startTime \<ge> spot_reservationEnd (parkingSpots s spotId)"
    "\<not> overflow ((endTime - startTime) * spot_hourlyRate (parkingSpots s spotId))"
    "v \<ge> ((endTime - startTime) * spot_hourlyRate (parkingSpots s spotId)) div 3600"
    "\<not> overflow (nextReservationId s + 1)"
  using assms by (simp_all add: reserveSpot_def Let_def split: if_splits)

lemma reserveSpot_Inr:
  fixes s e spotId startTime endTime v
  defines "totalCost \<equiv> ((endTime - startTime) * spot_hourlyRate (parkingSpots s spotId)) div 3600"
  assumes ok: "reserveSpot s e spotId startTime endTime v = Inr (s1, effs)"
  shows "s1 = s\<lparr>nextReservationId := nextReservationId s + 1,
                reservations := (reservations s)(nextReservationId s :=
                           \<lparr>res_reservationId = nextReservationId s, res_user = msg_sender e,
                            res_spotId = spotId, res_startTime = startTime, res_endTime = endTime,
                            res_totalCost = totalCost, res_paidAmount = v,
                            res_status = Active, res_actualStartTime = 0, res_actualEndTime = 0\<rparr>),
                userReservations := (userReservations s)(msg_sender e :=
                           userReservations s (msg_sender e) @ [nextReservationId s]),
                parkingSpots := (parkingSpots s)(spotId := (parkingSpots s spotId)\<lparr>spot_reservationEnd := endTime\<rparr>),
                sys_balance := sys_balance s + totalCost\<rparr>"
    and "effs = (if v > totalCost then [Transfer (msg_sender e) (v - totalCost)] else [])
              @ [ReservationCreated (nextReservationId s) (msg_sender e) spotId startTime endTime totalCost]"
  using ok [symmetric] reserveSpot_Inr_guards [OF ok]
  unfolding totalCost_def
  by (simp_all add: reserveSpot_def Let_def split: if_splits)

lemma startReservation_Inr:
  assumes ok: "startReservation s e rid = Inr (s1, effs)"
  shows "s1 = s\<lparr>reservations := (reservations s)(rid :=
                (reservations s rid)\<lparr>res_actualStartTime := block_timestamp e\<rparr>),
              parkingSpots := (parkingSpots s)(res_spotId (reservations s rid) :=
                (parkingSpots s (res_spotId (reservations s rid)))
                  \<lparr>spot_isOccupied := True, spot_currentUser := res_user (reservations s rid),
                   spot_totalOccupations := spot_totalOccupations (parkingSpots s (res_spotId (reservations s rid))) + 1\<rparr>)\<rparr>"
    and "rid < nextReservationId s" and "res_status (reservations s rid) = Active"
  using ok [symmetric] by (simp_all add: startReservation_def Let_def split: if_splits)

lemma completeReservation_Inr_guards:
  assumes "completeReservation s e rid = Inr x"
  shows "msg_sender e = oracleAddress s" "rid < nextReservationId s"
    "res_status (reservations s rid) = Active"
    "res_actualStartTime (reservations s rid) > 0"
    "res_actualEndTime (reservations s rid) = 0"
    "\<not> underflow (block_timestamp e) (res_actualStartTime (reservations s rid))"
  using assms by (simp_all add: completeReservation_def Let_def split: if_splits)

lemma completeReservation_Inr:
  fixes s e rid
  defines "r \<equiv> reservations s rid"
  defines "sp \<equiv> parkingSpots s (res_spotId r)"
  defines "cost \<equiv> ((block_timestamp e - res_actualStartTime r) * spot_hourlyRate sp) div 3600"
  defines "fee \<equiv> (cost * platformFeePercentage s) div 100"
  defines "refund \<equiv> (if res_totalCost r > cost then res_totalCost r - cost else 0)"
  assumes ok: "completeReservation s e rid = Inr (s1, effs)"
  shows "s1 = s\<lparr>reservations := (reservations s)(rid :=
                r\<lparr>res_actualEndTime := block_timestamp e, res_status := Completed\<rparr>),
              parkingSpots := (parkingSpots s)(res_spotId r :=
                sp\<lparr>spot_isOccupied := False, spot_currentUser := 0,
                   spot_totalEarnings := spot_totalEarnings sp + (cost - fee)\<rparr>),
              totalPlatformEarnings := totalPlatformEarnings s + fee,
              sys_balance := sys_balance s - refund\<rparr>"
    and "effs = (if res_totalCost r > cost then [Transfer (res_user r) refund] else [])
              @ [ReservationCompleted rid (block_timestamp e) cost refund,
                 SpotOccupancyChanged (res_spotId r) False 0]"
    and "refund \<le> sys_balance s"
    and "\<not> underflow cost fee"
    and "\<not> overflow (spot_totalEarnings sp + (cost - fee))"
    and "\<not> overflow (totalPlatformEarnings s + fee)"
    and "res_totalCost r > cost \<Longrightarrow> accepts_ether e (res_user r) refund"
  using ok [symmetric] completeReservation_Inr_guards [OF ok]
  unfolding r_def sp_def cost_def fee_def refund_def
  by (simp_all add: completeReservation_def Let_def transfer_reverts_def split: if_splits)

lemma completeReservation_actualCost:
  assumes ok: "completeReservation s e rid = Inr (s1, effs)"
  shows "actualCost_of s1 (reservations s1 rid) =
     ((block_timestamp e - res_actualStartTime (reservations s rid))
        * spot_hourlyRate (parkingSpots s (res_spotId (reservations s rid)))) div 3600"
  by (subst completeReservation_Inr(1) [OF ok])+ (simp add: actualCost_of_def)

lemma cancelReservation_Inr_guards:
  assumes "cancelReservation s e rid = Inr x"
  shows "rid < nextReservationId s"
    "res_user (reservations s rid) = msg_sender e"
    "res_status (reservations s rid) = Active"
    "res_actualStartTime (reservations s rid) = 0"
    "block_timestamp e < res_startTime (reservations s rid)"
    "\<not> overflow (res_totalCost (reservations s rid) * 5)"
    "\<not> overflow (totalPlatformEarnings s + cancellationFee_of (reservations s rid))"
    "\<not> transfer_reverts s e (msg_sender e)
         (res_totalCost (reservations s rid) - cancellationFee_of (reservations s rid))"
  using assms by (simp_all add: cancelReservation_def cancellationFee_of_def Let_def split: if_splits)

lemma cancelReservation_eq:
  assumes "rid < nextReservationId s"
    "res_user (reservations s rid) = msg_sender e"
    "res_status (reservations s rid) = Active"
    "res_actualStartTime (reservations s rid) = 0"
    "block_timestamp e < res_startTime (reservations s rid)"
    "\<not> overflow (res_totalCost (reservations s rid) * 5)"
    "\<not> overflow (totalPlatformEarnings s + cancellationFee_of (reservations s rid))"
    "\<not> transfer_reverts s e (msg_sender e)
         (res_totalCost (reservations s rid) - cancellationFee_of (reservations s rid))"
  shows "cancelReservation s e rid =
     Inr (s\<lparr>reservations := (reservations s)(rid := (reservations s rid)\<lparr>res_status := Cancelled\<rparr>),
             parkingSpots := (parkingSpots s)(res_spotId (reservations s rid) :=
               (parkingSpots s (res_spotId (reservations s rid)))\<lparr>spot_reservationEnd := 0\<rparr>),
             totalPlatformEarnings := totalPlatformEarnings s + cancellationFee_of (reservations s rid),
             sys_balance := sys_balance s
               - (res_totalCost (reservations s rid) - cancellationFee_of (reservations s rid))\<rparr>,
          [Transfer (msg_sender e)
             (res_totalCost (reservations s rid) - cancellationFee_of (reservations s rid)),
           ReservationCancelled rid
             (res_totalCost (reservations s rid) - cancellationFee_of (reservations s rid))])"
  using assms by (simp add: cancelReservation_def cancellationFee_of_def Let_def)

subsection \<open>The example runs, evaluated\<close>

lemmas parking_eval_defs = call_by_def parking_constructor_def createParkingSpot_def
  reserveSpot_def startReservation_def completeReservation_def cancelReservation_def
  withdrawPlatformEarnings_def
  MIN_RESERVATION_TIME_def MAX_RESERVATION_TIME_def MAX_UINT256_def overflow_def underflow_def
  transfer_reverts_def zero_ParkingSpot_def zero_Reservation_def Let_def

lemmas aggregate_eval_defs = spots_totalEarnings_def completed_actualCost_def cancelled_fees_def
  actualCost_of_def cancellationFee_of_def zero_ParkingSpot_def zero_Reservation_def
  lessThan_nat_numeral lessThan_Suc

lemma parking_deployed_eq:
  "parking_deployed =
     \<lparr>parkingSpots = (\<lambda>_. zero_ParkingSpot)
        (1 := \<lparr>spot_spotId = 1, spot_location = ''A1'', spot_hourlyRate = 100,
               spot_isActive = True, spot_isOccupied = False, spot_currentUser = 0,
               spot_reservationEnd = 0, spot_totalEarnings = 0, spot_totalOccupations = 0\<rparr>),
      reservations = (\<lambda>_. zero_Reservation),
      userReservations = (\<lambda>_. []),
      spotExists = (\<lambda>_. False)(1 := True),
      nextSpotId = 2,
      nextReservationId = 1,
      platformFeePercentage = 10,
      totalPlatformEarnings = 0,
      oracleAddress = 9,
      sys_owner = 1,
      sys_paused = False,
      sys_balance = 0\<rparr>"
  by (simp add: parking_deployed_def call_by_def parking_constructor_def createParkingSpot_def
      MAX_UINT256_def overflow_def)

lemma parking_reserved_eq:
  "parking_reserved =
     \<lparr>parkingSpots = (\<lambda>_. zero_ParkingSpot)
        (1 := \<lparr>spot_spotId = 1, spot_location = ''A1'', spot_hourlyRate = 100,
               spot_isActive = True, spot_isOccupied = False, spot_currentUser = 0,
               spot_reservationEnd = 8600, spot_totalEarnings = 0, spot_totalOccupations = 0\<rparr>),
      reservations = (\<lambda>_. zero_Reservation)
        (1 := \<lparr>res_reservationId = 1, res_user = 5, res_spotId = 1, res_startTime = 5000,
               res_endTime = 8600, res_totalCost = 100, res_paidAmount = 100, res_status = Active,
               res_actualStartTime = 0, res_actualEndTime = 0\<rparr>),
      userReservations = (\<lambda>_. [])(5 := [1]),
      spotExists = (\<lambda>_. False)(1 := True),
      nextSpotId = 2,
      nextReservationId = 2,
      platformFeePercentage = 10,
      totalPlatformEarnings = 0,
      oracleAddress = 9,
      sys_owner = 1,
      sys_paused = False,
      sys_balance = 100\<rparr>"
  unfolding parking_reserved_def parking_deployed_eq
  by (simp add: parking_eval_defs)

lemma parking_started_eq:
  "parking_started =
     \<lparr>parkingSpots = (\<lambda>_. zero_ParkingSpot)
        (1 := \<lparr>spot_spotId = 1, spot_location = ''A1'', spot_hourlyRate = 100,
               spot_isActive = True, spot_isOccupied = True, spot_currentUser = 5,
               spot_reservationEnd = 8600, spot_totalEarnings = 0, spot_totalOccupations = 1\<rparr>),
      reservations = (\<lambda>_. zero_Reservation)
        (1 := \<lparr>res_reservationId = 1, res_user = 5, res_spotId = 1, res_startTime = 5000,
               res_endTime = 8600, res_totalCost = 100, res_paidAmount = 100, res_status = Active,
               res_actualStartTime = 5000, res_actualEndTime = 0\<rparr>),
      userReservations = (\<lambda>_. [])(5 := [1]),
      spotExists = (\<lambda>_. False)(1 := True),
      nextSpotId = 2,
      nextReservationId = 2,
      platformFeePercentage = 10,
      totalPlatformEarnings = 0,
      oracleAddress = 9,
      sys_owner = 1,
      sys_paused = False,
      sys_balance = 100\<rparr>"
  unfolding parking_started_def parking_reserved_eq
  by (simp add: parking_eval_defs)

lemma parking_completed_eq:
  "parking_completed =
     \<lparr>parkingSpots = (\<lambda>_. zero_ParkingSpot)
        (1 := \<lparr>spot_spotId = 1, spot_location = ''A1'', spot_hourlyRate = 100,
               spot_isActive = True, spot_isOccupied = False, spot_currentUser = 0,
               spot_reservationEnd = 8600, spot_totalEarnings = 45, spot_totalOccupations = 1\<rparr>),
      reservations = (\<lambda>_. zero_Reservation)
        (1 := \<lparr>res_reservationId = 1, res_user = 5, res_spotId = 1, res_startTime = 5000,
               res_endTime = 8600, res_totalCost = 100, res_paidAmount = 100, res_status = Completed,
               res_actualStartTime = 5000, res_actualEndTime = 6800\<rparr>),
      userReservations = (\<lambda>_. [])(5 := [1]),
      spotExists = (\<lambda>_. False)(1 := True),
      nextSpotId = 2,
      nextReservationId = 2,
      platformFeePercentage = 10,
      totalPlatformEarnings = 5,
      oracleAddress = 9,
      sys_owner = 1,
      sys_paused = False,
      sys_balance = 50\<rparr>"
  unfolding parking_completed_def parking_started_eq
  by (simp add: parking_eval_defs)


lemma parking_cancelled_eq:
  "parking_cancelled =
     \<lparr>parkingSpots = (\<lambda>_. zero_ParkingSpot)
        (1 := \<lparr>spot_spotId = 1, spot_location = ''A1'', spot_hourlyRate = 100,
               spot_isActive = True, spot_isOccupied = False, spot_currentUser = 0,
               spot_reservationEnd = 0, spot_totalEarnings = 0, spot_totalOccupations = 0\<rparr>),
      reservations = (\<lambda>_. zero_Reservation)
        (1 := \<lparr>res_reservationId = 1, res_user = 5, res_spotId = 1, res_startTime = 5000,
               res_endTime = 8600, res_totalCost = 100, res_paidAmount = 100, res_status = Cancelled,
               res_actualStartTime = 0, res_actualEndTime = 0\<rparr>),
      userReservations = (\<lambda>_. [])(5 := [1]),
      spotExists = (\<lambda>_. False)(1 := True),
      nextSpotId = 2,
      nextReservationId = 2,
      platformFeePercentage = 10,
      totalPlatformEarnings = 5,
      oracleAddress = 9,
      sys_owner = 1,
      sys_paused = False,
      sys_balance = 5\<rparr>"
  unfolding parking_cancelled_def parking_reserved_eq
  by (simp add: parking_eval_defs)

lemma parking_second_cancelled_eq:
  "parking_second_cancelled =
     \<lparr>parkingSpots = (\<lambda>_. zero_ParkingSpot)
        (1 := \<lparr>spot_spotId = 1, spot_location = ''A1'', spot_hourlyRate = 100,
               spot_isActive = True, spot_isOccupied = False, spot_currentUser = 0,
               spot_reservationEnd = 0, spot_totalEarnings = 0, spot_totalOccupations = 0\<rparr>),
      reservations = (\<lambda>_. zero_Reservation)
        (1 := \<lparr>res_reservationId = 1, res_user = 5, res_spotId = 1, res_startTime = 5000,
               res_endTime = 8600, res_totalCost = 100, res_paidAmount = 100, res_status = Active,
               res_actualStartTime = 0, res_actualEndTime = 0\<rparr>,
         2 := \<lparr>res_reservationId = 2, res_user = 6, res_spotId = 1, res_startTime = 8600,
               res_endTime = 12200, res_totalCost = 100, res_paidAmount = 100, res_status = Cancelled,
               res_actualStartTime = 0, res_actualEndTime = 0\<rparr>),
      userReservations = (\<lambda>_. [])(5 := [1], 6 := [2]),
      spotExists = (\<lambda>_. False)(1 := True),
      nextSpotId = 2,
      nextReservationId = 3,
      platformFeePercentage = 10,
      totalPlatformEarnings = 5,
      oracleAddress = 9,
      sys_owner = 1,
      sys_paused = False,
      sys_balance = 105\<rparr>"
  unfolding parking_second_cancelled_def parking_reserved_eq
  by (simp add: parking_eval_defs)

lemma parking_double_booked_eq:
  "parking_double_booked =
     \<lparr>parkingSpots = (\<lambda>_. zero_ParkingSpot)
        (1 := \<lparr>spot_spotId = 1, spot_location = ''A1'', spot_hourlyRate = 100,
               spot_isActive = True, spot_isOccupied = False, spot_currentUser = 0,
               spot_reservationEnd = 8600, spot_totalEarnings = 0, spot_totalOccupations = 0\<rparr>),
      reservations = (\<lambda>_. zero_Reservation)
        (1 := \<lparr>res_reservationId = 1, res_user = 5, res_spotId = 1, res_startTime = 5000,
               res_endTime = 8600, res_totalCost = 100, res_paidAmount = 100, res_status = Active,
               res_actualStartTime = 0, res_actualEndTime = 0\<rparr>,
         2 := \<lparr>res_reservationId = 2, res_user = 6, res_spotId = 1, res_startTime = 8600,
               res_endTime = 12200, res_totalCost = 100, res_paidAmount = 100, res_status = Cancelled,
               res_actualStartTime = 0, res_actualEndTime = 0\<rparr>,
         3 := \<lparr>res_reservationId = 3, res_user = 7, res_spotId = 1, res_startTime = 5000,
               res_endTime = 8600, res_totalCost = 100, res_paidAmount = 100, res_status = Active,
               res_actualStartTime = 0, res_actualEndTime = 0\<rparr>),
      userReservations = (\<lambda>_. [])(5 := [1], 6 := [2], 7 := [3]),
      spotExists = (\<lambda>_. False)(1 := True),
      nextSpotId = 2,
      nextReservationId = 4,
      platformFeePercentage = 10,
      totalPlatformEarnings = 5,
      oracleAddress = 9,
      sys_owner = 1,
      sys_paused = False,
      sys_balance = 205\<rparr>"
  unfolding parking_double_booked_def parking_second_cancelled_eq
  by (simp add: parking_eval_defs)

lemma complete_half_hour_eval:
  "completeReservation parking_started (call_by 9 6800) 1 =
     Inr (parking_completed,
          [Transfer 5 50, ReservationCompleted 1 6800 50 50, SpotOccupancyChanged 1 False 0])"
  unfolding parking_completed_eq unfolding parking_started_eq
  by (simp add: parking_eval_defs)


lemma cancel_eval:
  "cancelReservation parking_reserved (call_by 5 2500) 1 =
     Inr (parking_cancelled, [Transfer 5 95, ReservationCancelled 1 95])"
  unfolding parking_cancelled_eq unfolding parking_reserved_eq
  by (simp add: parking_eval_defs)

subsection \<open>Settlement\<close>

text \<open>
  C3. For every \<^verbatim>\<open>completeReservation\<close> that returns: the reservation is Completed with
  the block time as its actual end; the cost charged is the stored actual end minus the
  stored actual start, times the hourly rate of the spot, divided by 3600 and rounded
  down; the platform fee is that cost times the fee percentage, divided by 100 and
  rounded down; the spot's earnings grow by exactly the cost minus the fee and the
  platform's by exactly the fee; the refund sent to the requester is the escrowed total
  cost minus the cost when the former is larger, and nothing is sent otherwise. The
  refund is a natural number, and it is not 0 exactly when the cost is below the total
  cost.
\<close>

theorem settlement_arithmetic:
  assumes "completeReservation s e rid = Inr (s1, effs)"
  shows "let r = reservations s rid;
             r1 = reservations s1 rid;
             sp = parkingSpots s (res_spotId r);
             sp1 = parkingSpots s1 (res_spotId r);
             actualCost = actualCost_of s1 r1;
             platformFee = (actualCost * platformFeePercentage s) div 100;
             refund = (if res_totalCost r > actualCost then res_totalCost r - actualCost else 0)
         in res_actualEndTime r1 = block_timestamp e
          \<and> res_actualStartTime r1 = res_actualStartTime r
          \<and> res_actualStartTime r1 \<le> res_actualEndTime r1
          \<and> res_status r1 = Completed
          \<and> platformFee \<le> actualCost
          \<and> spot_totalEarnings sp1 = spot_totalEarnings sp + (actualCost - platformFee)
          \<and> totalPlatformEarnings s1 = totalPlatformEarnings s + platformFee
          \<and> effs = (if res_totalCost r > actualCost then [Transfer (res_user r) refund] else [])
                   @ [ReservationCompleted rid (block_timestamp e) actualCost refund,
                      SpotOccupancyChanged (res_spotId r) False 0]
          \<and> sys_balance s1 = sys_balance s - refund
          \<and> refund \<le> sys_balance s
          \<and> (refund \<noteq> 0 \<longleftrightarrow> actualCost < res_totalCost r)"
proof -
  define c where "c = actualCost_of s1 (reservations s1 rid)"
  have c: "((block_timestamp e - res_actualStartTime (reservations s rid))
        * spot_hourlyRate (parkingSpots s (res_spotId (reservations s rid)))) div 3600 = c"
    by (simp add: c_def completeReservation_actualCost [OF assms])
  note g = completeReservation_Inr_guards [OF assms]
  note r = completeReservation_Inr [OF assms, unfolded c]
  have 1: "res_actualEndTime (reservations s1 rid) = block_timestamp e"
    "res_actualStartTime (reservations s1 rid) = res_actualStartTime (reservations s rid)"
    "res_status (reservations s1 rid) = Completed"
    "spot_totalEarnings (parkingSpots s1 (res_spotId (reservations s rid))) =
       spot_totalEarnings (parkingSpots s (res_spotId (reservations s rid)))
         + (c - (c * platformFeePercentage s) div 100)"
    "totalPlatformEarnings s1 = totalPlatformEarnings s + (c * platformFeePercentage s) div 100"
    "sys_balance s1 = sys_balance s
       - (if res_totalCost (reservations s rid) > c then res_totalCost (reservations s rid) - c else 0)"
    by (subst r(1), simp)+
  have 2: "res_actualStartTime (reservations s rid) \<le> block_timestamp e"
    using g(6) by (simp add: underflow_def)
  have 3: "(c * platformFeePercentage s) div 100 \<le> c"
    using r(4) by (simp only: underflow_def not_less)
  have 4: "(if res_totalCost (reservations s rid) > c then res_totalCost (reservations s rid) - c else 0)
             \<le> sys_balance s"
    by (rule r(3))
  show ?thesis
    unfolding Let_def c_def [symmetric] 1
    using 2 3 4 r(2) by simp
qed

theorem settlement_arithmetic_witness:
  "completeReservation parking_started (call_by 9 6800) 1 =
     Inr (parking_completed,
          [Transfer 5 50, ReservationCompleted 1 6800 50 50, SpotOccupancyChanged 1 False 0])
   \<and> actualCost_of parking_completed (reservations parking_completed 1) = 50
   \<and> res_totalCost (reservations parking_started 1) = 100
   \<and> spot_totalEarnings (parkingSpots parking_completed 1)
       = spot_totalEarnings (parkingSpots parking_started 1) + (50 - 5)
   \<and> totalPlatformEarnings parking_completed = totalPlatformEarnings parking_started + 5
   \<and> sys_balance parking_completed = sys_balance parking_started - 50"
proof -
  have v: "actualCost_of parking_completed (reservations parking_completed 1) = 50"
    "res_totalCost (reservations parking_started 1) = 100"
    "res_spotId (reservations parking_started 1) = 1"
    "platformFeePercentage parking_started = 10"
    by (simp_all add: parking_completed_eq parking_started_eq actualCost_of_def)
  from v complete_half_hour_eval settlement_arithmetic [OF complete_half_hour_eval]
  show ?thesis by (simp add: Let_def)
qed



subsection \<open>Cancellation\<close>

text \<open>
  C4 as stated fails: the guard \<^verbatim>\<open>block.timestamp < reservation.startTime\<close> is a
  condition on time. Account 5 holds reservation 1, Active and not started, for the hour
  from 5000; its cancellation at time 5000 reverts with the too-late error.
\<close>

theorem cancel_after_start_time_counterexample:
  "1 < nextReservationId parking_reserved
   \<and> res_user (reservations parking_reserved 1) = msg_sender (call_by 5 5000)
   \<and> res_status (reservations parking_reserved 1) = Active
   \<and> res_actualStartTime (reservations parking_reserved 1) = 0
   \<and> cancelReservation parking_reserved (call_by 5 5000) 1 = Inl TooLateToCancel"
  unfolding parking_reserved_eq
  by (simp add: parking_eval_defs)

lemma cancelReservation_Inl:
  assumes "cancelReservation s e rid = Inl err"
  shows "err =
    (if \<not> rid < nextReservationId s then ReservationNotFound
     else if res_user (reservations s rid) \<noteq> msg_sender e then NotAuthorized
     else if res_status (reservations s rid) \<noteq> Active then ReservationNotActive
     else if res_actualStartTime (reservations s rid) \<noteq> 0 then CannotCancelAfterStart
     else if \<not> block_timestamp e < res_startTime (reservations s rid) then TooLateToCancel
     else if overflow (res_totalCost (reservations s rid) * 5)
           \<or> overflow (totalPlatformEarnings s + cancellationFee_of (reservations s rid)) then Panic
     else TransferFailed)"
  using assms [symmetric]
  by (simp add: cancelReservation_def cancellationFee_of_def Let_def split: if_splits)

text \<open>
  C4, amended. \<^verbatim>\<open>cancelReservation\<close> returns exactly when the id is below the next
  reservation id, the caller is the requester, the reservation is Active and not started,
  the block time is before the reserved start time, the fee arithmetic stays within 256
  bits, the balance covers the refund and the caller takes the payment of the refund. It
  then sends the total cost minus the penalty of 5 percent (rounded down) to the caller,
  adds the penalty to the platform's earnings and marks the reservation Cancelled. In
  every other case it reverts, with the error of the first of these conditions that
  fails, in this order, and a revert changes nothing.
\<close>

theorem cancellation_precondition:
  "let r = reservations s rid;
       penalty = (res_totalCost r * 5) div 100;
       refund = res_totalCost r - penalty
   in ((\<exists>s1 effs. cancelReservation s e rid = Inr (s1, effs)) \<longleftrightarrow>
         rid < nextReservationId s
         \<and> res_user r = msg_sender e
         \<and> res_status r = Active
         \<and> res_actualStartTime r = 0
         \<and> block_timestamp e < res_startTime r
         \<and> res_totalCost r * 5 \<le> MAX_UINT256
         \<and> totalPlatformEarnings s + penalty \<le> MAX_UINT256
         \<and> refund \<le> sys_balance s
         \<and> accepts_ether e (msg_sender e) refund)
    \<and> (\<forall>s1 effs. cancelReservation s e rid = Inr (s1, effs) \<longrightarrow>
          effs = [Transfer (msg_sender e) refund, ReservationCancelled rid refund]
          \<and> totalPlatformEarnings s1 = totalPlatformEarnings s + penalty
          \<and> sys_balance s1 = sys_balance s - refund
          \<and> res_status (reservations s1 rid) = Cancelled)
    \<and> (\<not> (\<exists>s1 effs. cancelReservation s e rid = Inr (s1, effs)) \<longrightarrow>
          parking_run s [(e, CancelReservation rid)] = s
          \<and> cancelReservation s e rid = Inl
            (if \<not> rid < nextReservationId s then ReservationNotFound
             else if res_user r \<noteq> msg_sender e then NotAuthorized
             else if res_status r \<noteq> Active then ReservationNotActive
             else if res_actualStartTime r \<noteq> 0 then CannotCancelAfterStart
             else if \<not> block_timestamp e < res_startTime r then TooLateToCancel
             else if MAX_UINT256 < res_totalCost r * 5
                   \<or> MAX_UINT256 < totalPlatformEarnings s + penalty then Panic
             else TransferFailed))"
proof -
  have iff: "(\<exists>s1 effs. cancelReservation s e rid = Inr (s1, effs)) \<longleftrightarrow>
         rid < nextReservationId s
         \<and> res_user (reservations s rid) = msg_sender e
         \<and> res_status (reservations s rid) = Active
         \<and> res_actualStartTime (reservations s rid) = 0
         \<and> block_timestamp e < res_startTime (reservations s rid)
         \<and> \<not> overflow (res_totalCost (reservations s rid) * 5)
         \<and> \<not> overflow (totalPlatformEarnings s + cancellationFee_of (reservations s rid))
         \<and> \<not> transfer_reverts s e (msg_sender e)
               (res_totalCost (reservations s rid) - cancellationFee_of (reservations s rid))"
    (is "?L \<longleftrightarrow> ?R")
  proof
    assume ?L
    then obtain x where "cancelReservation s e rid = Inr x" by auto
    from cancelReservation_Inr_guards [OF this] show ?R by blast
  next
    assume ?R
    then show ?L using cancelReservation_eq [of rid s e] by blast
  qed
  have ovf: "\<And>n. \<not> overflow n \<longleftrightarrow> n \<le> MAX_UINT256"
    by (simp only: overflow_def not_less)
  have tr: "\<And>n. \<not> transfer_reverts s e (msg_sender e) n \<longleftrightarrow>
      n \<le> sys_balance s \<and> accepts_ether e (msg_sender e) n"
    by (simp only: transfer_reverts_def not_less de_Morgan_disj not_not)
  have res: "\<And>s1 effs. cancelReservation s e rid = Inr (s1, effs) \<Longrightarrow>
          effs = [Transfer (msg_sender e) (res_totalCost (reservations s rid) - cancellationFee_of (reservations s rid)),
                  ReservationCancelled rid (res_totalCost (reservations s rid) - cancellationFee_of (reservations s rid))]
          \<and> totalPlatformEarnings s1 = totalPlatformEarnings s + cancellationFee_of (reservations s rid)
          \<and> sys_balance s1 = sys_balance s - (res_totalCost (reservations s rid) - cancellationFee_of (reservations s rid))
          \<and> res_status (reservations s1 rid) = Cancelled"
  proof -
    fix s1 effs
    assume ok: "cancelReservation s e rid = Inr (s1, effs)"
    from ok [symmetric] show "effs = [Transfer (msg_sender e) (res_totalCost (reservations s rid) - cancellationFee_of (reservations s rid)),
                  ReservationCancelled rid (res_totalCost (reservations s rid) - cancellationFee_of (reservations s rid))]
          \<and> totalPlatformEarnings s1 = totalPlatformEarnings s + cancellationFee_of (reservations s rid)
          \<and> sys_balance s1 = sys_balance s - (res_totalCost (reservations s rid) - cancellationFee_of (reservations s rid))
          \<and> res_status (reservations s1 rid) = Cancelled"
      unfolding cancelReservation_eq [OF cancelReservation_Inr_guards [OF ok]]
      by simp
  qed
  have fails: "parking_run s [(e, CancelReservation rid)] = s
      \<and> cancelReservation s e rid = Inl
            (if \<not> rid < nextReservationId s then ReservationNotFound
             else if res_user (reservations s rid) \<noteq> msg_sender e then NotAuthorized
             else if res_status (reservations s rid) \<noteq> Active then ReservationNotActive
             else if res_actualStartTime (reservations s rid) \<noteq> 0 then CannotCancelAfterStart
             else if \<not> block_timestamp e < res_startTime (reservations s rid) then TooLateToCancel
             else if MAX_UINT256 < res_totalCost (reservations s rid) * 5
                   \<or> MAX_UINT256 < totalPlatformEarnings s + cancellationFee_of (reservations s rid)
               then Panic
             else TransferFailed)"
    if "\<not> (\<exists>s1 effs. cancelReservation s e rid = Inr (s1, effs))"
  proof (cases "cancelReservation s e rid")
    case (Inl err)
    from cancelReservation_Inl [OF Inl, unfolded overflow_def] Inl show ?thesis by simp
  next
    case (Inr x)
    with that show ?thesis by (cases x) simp
  qed
  show ?thesis
    unfolding Let_def cancellationFee_of_def [symmetric]
    using iff [unfolded ovf tr] res fails
    by blast
qed

theorem cancellation_precondition_witness:
  "1 < nextReservationId parking_reserved
   \<and> res_user (reservations parking_reserved 1) = msg_sender (call_by 5 2500)
   \<and> res_status (reservations parking_reserved 1) = Active
   \<and> res_actualStartTime (reservations parking_reserved 1) = 0
   \<and> block_timestamp (call_by 5 2500) < res_startTime (reservations parking_reserved 1)
   \<and> res_totalCost (reservations parking_reserved 1) * 5 \<le> MAX_UINT256
   \<and> totalPlatformEarnings parking_reserved + 5 \<le> MAX_UINT256
   \<and> (95::nat) \<le> sys_balance parking_reserved
   \<and> accepts_ether (call_by 5 2500) (msg_sender (call_by 5 2500)) 95
   \<and> cancelReservation parking_reserved (call_by 5 2500) 1 =
        Inr (parking_cancelled, [Transfer 5 95, ReservationCancelled 1 95])
   \<and> totalPlatformEarnings parking_cancelled = totalPlatformEarnings parking_reserved + 5
   \<and> sys_balance parking_cancelled = sys_balance parking_reserved - 95
   \<and> res_status (reservations parking_cancelled 1) = Cancelled
   \<and> \<not> accepts_ether (call_by_contract 5 2500) (msg_sender (call_by_contract 5 2500)) 95
   \<and> cancelReservation parking_reserved (call_by_contract 5 2500) 1 = Inl TransferFailed
   \<and> parking_run parking_reserved [(call_by_contract 5 2500, CancelReservation 1)] = parking_reserved"
proof -
  have v: "1 < nextReservationId parking_reserved"
    "res_user (reservations parking_reserved 1) = msg_sender (call_by 5 2500)"
    "res_status (reservations parking_reserved 1) = Active"
    "res_actualStartTime (reservations parking_reserved 1) = 0"
    "block_timestamp (call_by 5 2500) < res_startTime (reservations parking_reserved 1)"
    "res_totalCost (reservations parking_reserved 1) * 5 \<le> MAX_UINT256"
    "totalPlatformEarnings parking_reserved + 5 \<le> MAX_UINT256"
    "(95::nat) \<le> sys_balance parking_reserved"
    "accepts_ether (call_by 5 2500) (msg_sender (call_by 5 2500)) 95"
    "res_totalCost (reservations parking_reserved 1) = 100"
    by (simp_all add: parking_reserved_eq call_by_def MAX_UINT256_def)
  have w: "res_user (reservations parking_reserved 1) = msg_sender (call_by_contract 5 2500)"
    "block_timestamp (call_by_contract 5 2500) < res_startTime (reservations parking_reserved 1)"
    "\<not> accepts_ether (call_by_contract 5 2500) (msg_sender (call_by_contract 5 2500)) 95"
    "\<not> MAX_UINT256 < res_totalCost (reservations parking_reserved 1) * 5"
    "\<not> MAX_UINT256 < totalPlatformEarnings parking_reserved + 5"
    by (simp_all add: parking_reserved_eq call_by_contract_def MAX_UINT256_def)
  from v cancel_eval cancellation_precondition [of parking_reserved 1 "call_by 5 2500"]
  have ok: "cancelReservation parking_reserved (call_by 5 2500) 1 =
        Inr (parking_cancelled, [Transfer 5 95, ReservationCancelled 1 95])
   \<and> totalPlatformEarnings parking_cancelled = totalPlatformEarnings parking_reserved + 5
   \<and> sys_balance parking_cancelled = sys_balance parking_reserved - 95
   \<and> res_status (reservations parking_cancelled 1) = Cancelled"
    by (simp add: Let_def)
  from v w cancellation_precondition [of parking_reserved 1 "call_by_contract 5 2500"]
  have no: "cancelReservation parking_reserved (call_by_contract 5 2500) 1 = Inl TransferFailed
      \<and> parking_run parking_reserved [(call_by_contract 5 2500, CancelReservation 1)] = parking_reserved"
    by (simp add: Let_def)
  with v w ok show ?thesis by simp
qed

subsection \<open>The books\<close>

lemma sum_change_one:
  fixes f g :: "nat \<Rightarrow> nat"
  assumes "k < n" and "\<And>i. i < n \<Longrightarrow> i \<noteq> k \<Longrightarrow> g i = f i"
  shows "(\<Sum>i<n. g i) + f k = (\<Sum>i<n. f i) + g k"
proof -
  have k: "k \<in> {..<n}" using assms(1) by simp
  have "(\<Sum>i\<in>{..<n} - {k}. g i) = (\<Sum>i\<in>{..<n} - {k}. f i)"
    by (rule sum.cong) (simp_all add: assms(2))
  then show ?thesis
    by (simp add: sum.remove [OF _ k])
qed

lemma sum_same:
  fixes f g :: "nat \<Rightarrow> nat"
  assumes "\<And>i. i < n \<Longrightarrow> g i = f i"
  shows "(\<Sum>i<n. g i) = (\<Sum>i<n. f i)"
  by (rule sum.cong) (simp_all add: assms)

lemma completed_actualCost_change:
  assumes "nextReservationId s1 = nextReservationId s"
    and "k < nextReservationId s"
    and "\<And>i. i \<noteq> k \<Longrightarrow> reservations s1 i = reservations s i"
    and "\<And>i. spot_hourlyRate (parkingSpots s1 i) = spot_hourlyRate (parkingSpots s i)"
  shows "completed_actualCost s1
           + (if res_status (reservations s k) = Completed then actualCost_of s (reservations s k) else 0)
         = completed_actualCost s
           + (if res_status (reservations s1 k) = Completed then actualCost_of s1 (reservations s1 k) else 0)"
  unfolding completed_actualCost_def assms(1)
  by (rule sum_change_one [OF assms(2)]) (simp add: assms(3,4) actualCost_of_def)

lemma cancelled_fees_change:
  assumes "nextReservationId s1 = nextReservationId s"
    and "k < nextReservationId s"
    and "\<And>i. i \<noteq> k \<Longrightarrow> reservations s1 i = reservations s i"
  shows "cancelled_fees s1
           + (if res_status (reservations s k) = Cancelled then cancellationFee_of (reservations s k) else 0)
         = cancelled_fees s
           + (if res_status (reservations s1 k) = Cancelled then cancellationFee_of (reservations s1 k) else 0)"
  unfolding cancelled_fees_def assms(1)
  by (rule sum_change_one [OF assms(2)]) (simp add: assms(3))

lemma spots_totalEarnings_change:
  assumes "nextSpotId s1 = nextSpotId s"
    and "k < nextSpotId s"
    and "\<And>i. i \<noteq> k \<Longrightarrow> spot_totalEarnings (parkingSpots s1 i) = spot_totalEarnings (parkingSpots s i)"
  shows "spots_totalEarnings s1 + spot_totalEarnings (parkingSpots s k)
         = spots_totalEarnings s + spot_totalEarnings (parkingSpots s1 k)"
  unfolding spots_totalEarnings_def assms(1)
  by (rule sum_change_one [OF assms(2)]) (simp add: assms(3))

lemma completeReservation_ledger:
  assumes ok: "completeReservation s e rid = Inr (s1, effs)"
    and inv: "ledger_inv s" and bal: "ledger_balanced s w"
  shows "ledger_inv s1 \<and> ledger_balanced s1 w"
proof -
  define c where "c = actualCost_of s1 (reservations s1 rid)"
  define fee where "fee = (c * platformFeePercentage s) div 100"
  define k where "k = res_spotId (reservations s rid)"
  have c: "((block_timestamp e - res_actualStartTime (reservations s rid))
        * spot_hourlyRate (parkingSpots s (res_spotId (reservations s rid)))) div 3600 = c"
    by (simp add: c_def completeReservation_actualCost [OF ok])
  note g = completeReservation_Inr_guards [OF ok]
  note r = completeReservation_Inr [OF ok, unfolded c, folded fee_def, folded k_def]
  have k: "k < nextSpotId s"
    using inv by (simp add: ledger_inv_def k_def)
  have f: "nextReservationId s1 = nextReservationId s" "nextSpotId s1 = nextSpotId s"
    "spotExists s1 = spotExists s"
    "totalPlatformEarnings s1 = totalPlatformEarnings s + fee"
    "\<And>i. i \<noteq> rid \<Longrightarrow> reservations s1 i = reservations s i"
    "\<And>i. res_spotId (reservations s1 i) = res_spotId (reservations s i)"
    "\<And>i. spot_hourlyRate (parkingSpots s1 i) = spot_hourlyRate (parkingSpots s i)"
    "\<And>i. i \<noteq> k \<Longrightarrow> spot_totalEarnings (parkingSpots s1 i) = spot_totalEarnings (parkingSpots s i)"
    "spot_totalEarnings (parkingSpots s1 k) = spot_totalEarnings (parkingSpots s k) + (c - fee)"
    "res_status (reservations s1 rid) = Completed"
    by (subst r(1), simp add: k_def)+
  have fee: "fee \<le> c"
    using r(4) by (simp only: underflow_def not_less)
  have A: "spots_totalEarnings s1 = spots_totalEarnings s + (c - fee)"
    using spots_totalEarnings_change [of s1 s k, OF f(2) k f(8)] f(9) by simp
  have B: "completed_actualCost s1 = completed_actualCost s + c"
    using completed_actualCost_change [of s1 s rid, OF f(1) g(2) f(5) f(7)] g(3) f(10)
    by (simp add: c_def)
  have C: "cancelled_fees s1 = cancelled_fees s"
    using cancelled_fees_change [of s1 s rid, OF f(1) g(2) f(5)] g(3) f(10) by simp
  have "ledger_inv s1"
    using inv by (simp add: ledger_inv_def f)
  moreover have "ledger_balanced s1 w"
    using bal fee by (simp add: ledger_balanced_def A B C f(4))
  ultimately show ?thesis by simp
qed

lemma cancelReservation_ledger:
  assumes ok: "cancelReservation s e rid = Inr (s1, effs)"
    and inv: "ledger_inv s" and bal: "ledger_balanced s w"
  shows "ledger_inv s1 \<and> ledger_balanced s1 w"
proof -
  define k where "k = res_spotId (reservations s rid)"
  define fee where "fee = cancellationFee_of (reservations s rid)"
  note g = cancelReservation_Inr_guards [OF ok]
  note r = ok [unfolded cancelReservation_eq [OF g], folded fee_def, folded k_def, simplified, THEN conjunct1, symmetric]
  have f: "nextReservationId s1 = nextReservationId s" "nextSpotId s1 = nextSpotId s"
    "spotExists s1 = spotExists s"
    "totalPlatformEarnings s1 = totalPlatformEarnings s + fee"
    "\<And>i. i \<noteq> rid \<Longrightarrow> reservations s1 i = reservations s i"
    "\<And>i. res_spotId (reservations s1 i) = res_spotId (reservations s i)"
    "\<And>i. spot_hourlyRate (parkingSpots s1 i) = spot_hourlyRate (parkingSpots s i)"
    "\<And>i. spot_totalEarnings (parkingSpots s1 i) = spot_totalEarnings (parkingSpots s i)"
    "res_status (reservations s1 rid) = Cancelled"
    "cancellationFee_of (reservations s1 rid) = fee"
    by (subst r, simp add: k_def fee_def cancellationFee_of_def)+
  have A: "spots_totalEarnings s1 = spots_totalEarnings s"
    unfolding spots_totalEarnings_def f(2) by (rule sum_same) (simp add: f(8))
  have B: "completed_actualCost s1 = completed_actualCost s"
    using completed_actualCost_change [of s1 s rid, OF f(1) g(1) f(5) f(7)] g(3) f(9) by simp
  have C: "cancelled_fees s1 = cancelled_fees s + fee"
    using cancelled_fees_change [of s1 s rid, OF f(1) g(1) f(5)] g(3) f(9) f(10) by simp
  have "ledger_inv s1"
    using inv by (simp add: ledger_inv_def f)
  moreover have "ledger_balanced s1 w"
    using bal by (simp add: ledger_balanced_def A B C f(4))
  ultimately show ?thesis by simp
qed

lemma startReservation_ledger:
  assumes ok: "startReservation s e rid = Inr (s1, effs)"
    and inv: "ledger_inv s" and bal: "ledger_balanced s w"
  shows "ledger_inv s1 \<and> ledger_balanced s1 w"
proof -
  note r = startReservation_Inr [OF ok]
  have f: "nextReservationId s1 = nextReservationId s" "nextSpotId s1 = nextSpotId s"
    "spotExists s1 = spotExists s"
    "totalPlatformEarnings s1 = totalPlatformEarnings s"
    "\<And>i. i \<noteq> rid \<Longrightarrow> reservations s1 i = reservations s i"
    "\<And>i. res_spotId (reservations s1 i) = res_spotId (reservations s i)"
    "\<And>i. spot_hourlyRate (parkingSpots s1 i) = spot_hourlyRate (parkingSpots s i)"
    "\<And>i. spot_totalEarnings (parkingSpots s1 i) = spot_totalEarnings (parkingSpots s i)"
    "res_status (reservations s1 rid) = Active"
    by (subst r(1), simp add: r(3))+
  have A: "spots_totalEarnings s1 = spots_totalEarnings s"
    unfolding spots_totalEarnings_def f(2) by (rule sum_same) (simp add: f(8))
  have B: "completed_actualCost s1 = completed_actualCost s"
    using completed_actualCost_change [of s1 s rid, OF f(1) r(2) f(5) f(7)] r(3) f(9) by simp
  have C: "cancelled_fees s1 = cancelled_fees s"
    using cancelled_fees_change [of s1 s rid, OF f(1) r(2) f(5)] r(3) f(9) by simp
  have "ledger_inv s1"
    using inv by (simp add: ledger_inv_def f)
  moreover have "ledger_balanced s1 w"
    using bal by (simp add: ledger_balanced_def A B C f(4))
  ultimately show ?thesis by simp
qed

lemma reserveSpot_ledger:
  assumes ok: "reserveSpot s e spotId startTime endTime v = Inr (s1, effs)"
    and inv: "ledger_inv s" and bal: "ledger_balanced s w"
  shows "ledger_inv s1 \<and> ledger_balanced s1 w"
proof -
  note g = reserveSpot_Inr_guards [OF ok]
  note r = reserveSpot_Inr [OF ok]
  have f: "nextReservationId s1 = Suc (nextReservationId s)" "nextSpotId s1 = nextSpotId s"
    "spotExists s1 = spotExists s"
    "totalPlatformEarnings s1 = totalPlatformEarnings s"
    "\<And>i. i \<noteq> nextReservationId s \<Longrightarrow> reservations s1 i = reservations s i"
    "res_spotId (reservations s1 (nextReservationId s)) = spotId"
    "\<And>i. spot_hourlyRate (parkingSpots s1 i) = spot_hourlyRate (parkingSpots s i)"
    "\<And>i. spot_totalEarnings (parkingSpots s1 i) = spot_totalEarnings (parkingSpots s i)"
    "res_status (reservations s1 (nextReservationId s)) = Active"
    by (subst r(1), simp)+
  have A: "spots_totalEarnings s1 = spots_totalEarnings s"
    unfolding spots_totalEarnings_def f(2) by (rule sum_same) (simp add: f(8))
  have B: "completed_actualCost s1 = completed_actualCost s"
    unfolding completed_actualCost_def f(1)
    by (simp add: f(9)) (rule sum_same, simp add: f(5) f(7) actualCost_of_def)
  have C: "cancelled_fees s1 = cancelled_fees s"
    unfolding cancelled_fees_def f(1)
    by (simp add: f(9)) (rule sum_same, simp add: f(5))
  have "\<And>i. res_spotId (reservations s1 i) < nextSpotId s"
  proof -
    fix i
    show "res_spotId (reservations s1 i) < nextSpotId s"
      using inv g(2) f(5) [of i] f(6) by (cases "i = nextReservationId s") (auto simp add: ledger_inv_def)
  qed
  then have "ledger_inv s1"
    using inv by (simp add: ledger_inv_def f(2,3))
  moreover have "ledger_balanced s1 w"
    using bal by (simp add: ledger_balanced_def A B C f(4))
  ultimately show ?thesis by simp
qed

lemma createParkingSpot_ledger:
  assumes ok: "createParkingSpot s e location hourlyRate = Inr (s1, effs)"
    and inv: "ledger_inv s" and bal: "ledger_balanced s w"
  shows "ledger_inv s1 \<and> ledger_balanced s1 w"
proof -
  note r = createParkingSpot_Inr [OF ok]
  have f: "nextReservationId s1 = nextReservationId s" "nextSpotId s1 = Suc (nextSpotId s)"
    "spotExists s1 = (spotExists s)(nextSpotId s := True)"
    "totalPlatformEarnings s1 = totalPlatformEarnings s"
    "reservations s1 = reservations s"
    "\<And>i. i \<noteq> nextSpotId s \<Longrightarrow> parkingSpots s1 i = parkingSpots s i"
    "spot_totalEarnings (parkingSpots s1 (nextSpotId s)) = 0"
    by (subst r, simp)+
  have A: "spots_totalEarnings s1 = spots_totalEarnings s"
    unfolding spots_totalEarnings_def f(2)
    by (simp add: f(7)) (rule sum_same, simp add: f(6))
  have same: "\<And>i. actualCost_of s1 (reservations s i) = actualCost_of s (reservations s i)"
  proof -
    fix i
    have "res_spotId (reservations s i) \<noteq> nextSpotId s"
      using inv by (auto simp add: ledger_inv_def dest: spec [of _ i])
    then show "actualCost_of s1 (reservations s i) = actualCost_of s (reservations s i)"
      by (simp add: actualCost_of_def f(6))
  qed
  have B: "completed_actualCost s1 = completed_actualCost s"
    unfolding completed_actualCost_def f(1) f(5) by (simp add: same cong: if_cong)
  have C: "cancelled_fees s1 = cancelled_fees s"
    unfolding cancelled_fees_def f(1) f(5) by simp
  have "ledger_inv s1"
    using inv by (auto simp add: ledger_inv_def f less_Suc_eq)
  moreover have "ledger_balanced s1 w"
    using bal by (simp add: ledger_balanced_def A B C f(4))
  ultimately show ?thesis by simp
qed

lemma aggregates_same:
  assumes "nextReservationId s1 = nextReservationId s" "nextSpotId s1 = nextSpotId s"
    "reservations s1 = reservations s" "parkingSpots s1 = parkingSpots s" "spotExists s1 = spotExists s"
  shows "spots_totalEarnings s1 = spots_totalEarnings s"
    "completed_actualCost s1 = completed_actualCost s"
    "cancelled_fees s1 = cancelled_fees s"
    "ledger_inv s1 = ledger_inv s"
  by (simp_all add: spots_totalEarnings_def completed_actualCost_def cancelled_fees_def
      ledger_inv_def actualCost_of_def assms cong: if_cong)

lemma withdrawPlatformEarnings_ledger:
  assumes ok: "withdrawPlatformEarnings s e = Inr (s1, effs)"
    and inv: "ledger_inv s" and bal: "ledger_balanced s w"
  shows "ledger_inv s1 \<and> ledger_balanced s1 (w + totalPlatformEarnings s)"
proof -
  have f: "nextReservationId s1 = nextReservationId s" "nextSpotId s1 = nextSpotId s"
    "reservations s1 = reservations s" "parkingSpots s1 = parkingSpots s" "spotExists s1 = spotExists s"
    "totalPlatformEarnings s1 = 0"
    using ok [symmetric] by (simp_all add: withdrawPlatformEarnings_def Let_def split: if_splits)
  show ?thesis
    using inv bal by (simp add: ledger_balanced_def aggregates_same [OF f(1-5)] f(6))
qed

lemma admin_ledger:
  assumes ok: "c \<in> {UpdatePlatformFee p, UpdateOracle a, SysPause, SysUnpause,
                      SysTransferOwnership a, SysRenounceOwnership}"
    and step: "parking_step s e c = Inr (s1, effs)"
    and inv: "ledger_inv s" and bal: "ledger_balanced s w"
  shows "ledger_inv s1 \<and> ledger_balanced s1 w"
proof -
  have f: "nextReservationId s1 = nextReservationId s" "nextSpotId s1 = nextSpotId s"
    "reservations s1 = reservations s" "parkingSpots s1 = parkingSpots s" "spotExists s1 = spotExists s"
    "totalPlatformEarnings s1 = totalPlatformEarnings s"
    using ok step [symmetric]
    by (auto simp add: updatePlatformFee_def updateOracle_def sys_pause_def sys_unpause_def
        sys_transferOwnership_def sys_renounceOwnership_def split: if_splits)
  show ?thesis
    using inv bal by (simp add: ledger_balanced_def aggregates_same [OF f(1-5)] f(6))
qed

lemma parking_step_ledger:
  assumes step: "parking_step s e c = Inr (s1, effs)"
    and inv: "ledger_inv s" and bal: "ledger_balanced s w"
  shows "ledger_inv s1 \<and>
         ledger_balanced s1 (w + (if c = WithdrawPlatformEarnings then totalPlatformEarnings s else 0))"
proof (cases c)
  case (CreateParkingSpot location hourlyRate)
  then show ?thesis using createParkingSpot_ledger [OF _ inv bal] step by simp
next
  case (ReserveSpot spotId startTime endTime v)
  then show ?thesis using reserveSpot_ledger [OF _ inv bal] step by simp
next
  case (StartReservation rid)
  then show ?thesis using startReservation_ledger [OF _ inv bal] step by simp
next
  case (CompleteReservation rid)
  then show ?thesis using completeReservation_ledger [OF _ inv bal] step by simp
next
  case (CancelReservation rid)
  then show ?thesis using cancelReservation_ledger [OF _ inv bal] step by simp
next
  case WithdrawPlatformEarnings
  then show ?thesis using withdrawPlatformEarnings_ledger [OF _ inv bal] step by simp
next
  case (UpdatePlatformFee p)
  then show ?thesis using admin_ledger [OF _ step inv bal, of p] by simp
next
  case (UpdateOracle a)
  then show ?thesis using admin_ledger [OF _ step inv bal, of _ a] by simp
next
  case SysPause
  then show ?thesis using admin_ledger [OF _ step inv bal] by simp
next
  case SysUnpause
  then show ?thesis using admin_ledger [OF _ step inv bal] by simp
next
  case (SysTransferOwnership a)
  then show ?thesis using admin_ledger [OF _ step inv bal, of _ a] by simp
next
  case SysRenounceOwnership
  then show ?thesis using admin_ledger [OF _ step inv bal] by simp
qed

lemma parking_run_ledger:
  "ledger_inv s \<Longrightarrow> ledger_balanced s w \<Longrightarrow>
   ledger_inv (parking_run s cs) \<and> ledger_balanced (parking_run s cs) (w + total_withdrawn s cs)"
proof (induction cs arbitrary: s w)
  case Nil
  then show ?case by simp
next
  case (Cons x cs)
  obtain e c where x: "x = (e, c)" by (cases x)
  show ?case
  proof (cases "parking_step s e c")
    case (Inl err)
    then show ?thesis using Cons x by simp
  next
    case (Inr y)
    obtain s1 effs where y: "y = (s1, effs)" by (cases y)
    from parking_step_ledger [OF Inr [unfolded y] Cons.prems]
    have "ledger_inv s1"
      "ledger_balanced s1 (w + (if c = WithdrawPlatformEarnings then totalPlatformEarnings s else 0))"
      by simp_all
    from Cons.IH [OF this] show ?thesis
      using x Inr y by (simp add: add.assoc)
  qed
qed

lemma constructor_ledger:
  "ledger_inv (parking_constructor e a)" "ledger_balanced (parking_constructor e a) 0"
  by (simp_all add: ledger_inv_def ledger_balanced_def parking_constructor_def
      spots_totalEarnings_def completed_actualCost_def cancelled_fees_def
      zero_Reservation_def zero_ParkingSpot_def)

text \<open>
  C1 as stated fails: a cancellation credits the platform although nothing was completed.
  After account 5 has reserved an hour for 100 and cancelled it, the platform holds the
  penalty of 5 and no reservation is Completed.
\<close>

theorem conservation_counterexample:
  "spots_totalEarnings parking_cancelled + totalPlatformEarnings parking_cancelled = 5
   \<and> completed_actualCost parking_cancelled = 0"
  unfolding parking_cancelled_eq
  by (simp add: aggregate_eval_defs)

text \<open>
  C1, amended. In every state the contract can reach, the earnings of all spots, plus the
  platform's accumulated earnings, plus what \<^verbatim>\<open>withdrawPlatformEarnings\<close> has paid out so
  far, equal the cost charged over all Completed reservations plus the penalties kept over
  all Cancelled ones.
\<close>

theorem financial_conservation:
  "spots_totalEarnings (parking_run (parking_constructor e a) cs)
     + totalPlatformEarnings (parking_run (parking_constructor e a) cs)
     + total_withdrawn (parking_constructor e a) cs
   = completed_actualCost (parking_run (parking_constructor e a) cs)
     + cancelled_fees (parking_run (parking_constructor e a) cs)"
  using parking_run_ledger [OF constructor_ledger, of e a cs]
  by (simp add: ledger_balanced_def)

lemma parking_run_append:
  "parking_run s (xs @ ys) = parking_run (parking_run s xs) ys"
  by (induction xs arbitrary: s) (auto split: sum.splits)

lemma total_withdrawn_append:
  "total_withdrawn s (xs @ ys) = total_withdrawn s xs + total_withdrawn (parking_run s xs) ys"
  by (induction xs arbitrary: s) (auto split: sum.splits)

lemma total_withdrawn_none:
  "WithdrawPlatformEarnings \<notin> snd ` set cs \<Longrightarrow> total_withdrawn s cs = 0"
  by (induction cs arbitrary: s) (auto split: sum.splits)

lemma ledger_example_split:
  "parking_run (parking_constructor (call_by 1 1000) 9) ledger_example =
     parking_run parking_second_cancelled
       [(call_by 1 2300, WithdrawPlatformEarnings),
        (call_by 9 5000, StartReservation 1), (call_by 9 6800, CompleteReservation 1)]"
  "total_withdrawn (parking_constructor (call_by 1 1000) 9) ledger_example =
     total_withdrawn parking_second_cancelled
       [(call_by 1 2300, WithdrawPlatformEarnings),
        (call_by 9 5000, StartReservation 1), (call_by 9 6800, CompleteReservation 1)]"
proof -
  let ?init = "parking_constructor (call_by 1 1000) 9"
  let ?before = "[(call_by 1 1100, CreateParkingSpot ''A1'' 100),
      (call_by 5 2000, ReserveSpot 1 5000 8600 100),
      (call_by 6 2100, ReserveSpot 1 8600 12200 100), (call_by 6 2200, CancelReservation 2)]"
  let ?after = "[(call_by 1 2300, WithdrawPlatformEarnings),
      (call_by 9 5000, StartReservation 1), (call_by 9 6800, CompleteReservation 1)]"
  have split: "ledger_example = ?before @ ?after"
    by (simp add: ledger_example_def)
  have "parking_run ?init ?before =
      parking_run (parking_run (parking_run ?init
        ([(call_by 1 1100, CreateParkingSpot ''A1'' 100)]))
        [(call_by 5 2000, ReserveSpot 1 5000 8600 100)])
        [(call_by 6 2100, ReserveSpot 1 8600 12200 100), (call_by 6 2200, CancelReservation 2)]"
    by (simp only: parking_run_append [symmetric] append_Cons append_Nil)
  then have before: "parking_run ?init ?before = parking_second_cancelled"
    by (simp only: parking_deployed_def [symmetric]
        parking_reserved_def [symmetric] parking_second_cancelled_def [symmetric])
  show "parking_run ?init ledger_example = parking_run parking_second_cancelled ?after"
    by (simp only: split parking_run_append before)
  have "total_withdrawn ?init ?before = 0"
    by (rule total_withdrawn_none) simp
  then show "total_withdrawn ?init ledger_example = total_withdrawn parking_second_cancelled ?after"
    by (simp only: split total_withdrawn_append before)
qed

lemma ledger_example_eval:
  "parking_run (parking_constructor (call_by 1 1000) 9) ledger_example =
     \<lparr>parkingSpots = (\<lambda>_. zero_ParkingSpot)
        (1 := \<lparr>spot_spotId = 1, spot_location = ''A1'', spot_hourlyRate = 100,
               spot_isActive = True, spot_isOccupied = False, spot_currentUser = 0,
               spot_reservationEnd = 0, spot_totalEarnings = 45, spot_totalOccupations = 1\<rparr>),
      reservations = (\<lambda>_. zero_Reservation)
        (1 := \<lparr>res_reservationId = 1, res_user = 5, res_spotId = 1, res_startTime = 5000,
               res_endTime = 8600, res_totalCost = 100, res_paidAmount = 100, res_status = Completed,
               res_actualStartTime = 5000, res_actualEndTime = 6800\<rparr>,
         2 := \<lparr>res_reservationId = 2, res_user = 6, res_spotId = 1, res_startTime = 8600,
               res_endTime = 12200, res_totalCost = 100, res_paidAmount = 100, res_status = Cancelled,
               res_actualStartTime = 0, res_actualEndTime = 0\<rparr>),
      userReservations = (\<lambda>_. [])(5 := [1], 6 := [2]),
      spotExists = (\<lambda>_. False)(1 := True),
      nextSpotId = 2,
      nextReservationId = 3,
      platformFeePercentage = 10,
      totalPlatformEarnings = 5,
      oracleAddress = 9,
      sys_owner = 1,
      sys_paused = False,
      sys_balance = 50\<rparr>"
  unfolding ledger_example_split(1) parking_second_cancelled_eq
  by (simp add: parking_eval_defs fun_upd_twist)

lemma ledger_example_withdrawn:
  "total_withdrawn (parking_constructor (call_by 1 1000) 9) ledger_example = 5"
  unfolding ledger_example_split(2) parking_second_cancelled_eq
  by (simp add: parking_eval_defs)

theorem financial_conservation_witness:
  "spots_totalEarnings (parking_run (parking_constructor (call_by 1 1000) 9) ledger_example) = 45
   \<and> totalPlatformEarnings (parking_run (parking_constructor (call_by 1 1000) 9) ledger_example) = 5
   \<and> total_withdrawn (parking_constructor (call_by 1 1000) 9) ledger_example = 5
   \<and> completed_actualCost (parking_run (parking_constructor (call_by 1 1000) 9) ledger_example)
       + cancelled_fees (parking_run (parking_constructor (call_by 1 1000) 9) ledger_example) = 55"
proof -
  have v: "spots_totalEarnings (parking_run (parking_constructor (call_by 1 1000) 9) ledger_example) = 45"
    "totalPlatformEarnings (parking_run (parking_constructor (call_by 1 1000) 9) ledger_example) = 5"
    unfolding ledger_example_eval by (simp_all add: aggregate_eval_defs)
  from v ledger_example_withdrawn
    financial_conservation [of "call_by 1 1000" 9 ledger_example]
  show ?thesis by simp
qed

subsection \<open>Two reservations of one hour\<close>

text \<open>
  C2 fails on the code. Reservation 1 of spot 1 is Active until 8600. After a later
  reservation of the same spot has been made and cancelled, which resets the horizon of
  the spot to 0, \<^verbatim>\<open>reserveSpot\<close> for the hour from 5000 to 8600 returns: reservations 1
  and 3, of accounts 5 and 7, are both Active on spot 1 for the same hour.
\<close>

theorem double_booking_after_cancel:
  "res_status (reservations parking_second_cancelled 1) = Active
   \<and> res_spotId (reservations parking_second_cancelled 1) = 1
   \<and> res_endTime (reservations parking_second_cancelled 1) = 8600
   \<and> (5000::nat) < 8600
   \<and> reserveSpot parking_second_cancelled (call_by 7 2300) 1 5000 8600 100 =
        Inr (parking_double_booked, [ReservationCreated 3 7 1 5000 8600 100])
   \<and> res_status (reservations parking_double_booked 1) = Active
   \<and> res_user (reservations parking_double_booked 1) = 5
   \<and> res_status (reservations parking_double_booked 3) = Active
   \<and> res_user (reservations parking_double_booked 3) = 7
   \<and> windows_overlap (reservations parking_double_booked 1) (reservations parking_double_booked 3)"
proof -
  have "reserveSpot parking_second_cancelled (call_by 7 2300) 1 5000 8600 100 =
        Inr (parking_double_booked, [ReservationCreated 3 7 1 5000 8600 100])"
    unfolding parking_double_booked_eq unfolding parking_second_cancelled_eq
    by (simp add: parking_eval_defs)
  then show ?thesis
    by (simp add: parking_double_booked_eq parking_second_cancelled_eq windows_overlap_def)
qed

end
